theory Spec2Isabelle
  imports Complex_Main "HOL-Library.Word" "HOL-Library.AList" "HOL-Library.Sublist"
begin

section \<open>Python values shared by both modules\<close>

text \<open>
  Exceptions are values: a function of the source that can raise returns
  \<open>pyerr + 'a\<close>, with \<open>Inl\<close> for the exception that leaves the function.
\<close>

datatype pyerr = ValueError | IndexError | KeyError | OverflowError | ZeroDivisionError

definition and_then :: "pyerr + 'a \<Rightarrow> ('a \<Rightarrow> pyerr + 'b) \<Rightarrow> pyerr + 'b" where
  "and_then m f = (case m of Inl e \<Rightarrow> Inl e | Inr x \<Rightarrow> f x)"

subsection \<open>Floats\<close>

text \<open>
  A Python float is an IEEE 754 binary64 value. A finite one is \<open>Finite m e\<close>, the
  number \<open>m * 2 ^ e\<close> (the sign of zero is not kept: no operation of the source
  distinguishes the two zeros). Two pairs may stand for the same number, so the
  comparisons of the source are \<open>float_eq\<close> and \<open>float_less\<close>, which compare the
  numbers. Conversion
  from a decimal or an integer and the arithmetic operations are correctly rounded,
  to nearest with ties to even; a result of magnitude \<open>2 ^ 1024\<close> or more is an
  infinity.
\<close>

datatype pyfloat = Finite int int | PosInf | NegInf | NaN

function bit_length :: "int \<Rightarrow> nat" where
  "bit_length n = (if n \<le> 0 then 0 else Suc (bit_length (n div 2)))"
  by pat_completeness auto
termination
  by (relation "measure nat") auto

declare bit_length.simps [simp del]

text \<open>\<open>floor_log2 n d\<close> is the integer part of the binary logarithm of \<open>n / d\<close>, for positive \<open>n\<close> and \<open>d\<close>.\<close>

definition floor_log2 :: "int \<Rightarrow> int \<Rightarrow> int" where
  "floor_log2 n d =
    (let k = int (bit_length n) - int (bit_length d)
     in if (if k \<ge> 0 then d * 2 ^ nat k \<le> n else d \<le> n * 2 ^ nat (- k)) then k else k - 1)"

definition round_half_even :: "int \<Rightarrow> int \<Rightarrow> int" where
  "round_half_even num den =
    (let q = num div den; r = num mod den
     in if 2 * r < den then q
        else if 2 * r > den then q + 1
        else if even q then q else q + 1)"

text \<open>
  The binary64 value nearest to \<open>n / d\<close> (\<open>n\<close> not negative, \<open>d\<close> positive), negated
  when \<open>neg\<close>.
\<close>

definition round_double :: "bool \<Rightarrow> int \<Rightarrow> int \<Rightarrow> pyfloat" where
  "round_double neg n d =
    (if n \<le> 0 then Finite 0 0
     else
       let e = max (floor_log2 n d) (- 1022);
           u = e - 52;
           m = (if u \<ge> 0 then round_half_even n (d * 2 ^ nat u)
                else round_half_even (n * 2 ^ nat (- u)) d)
       in if e \<ge> 1024 \<or> m \<ge> 2 ^ nat (1024 - u) then (if neg then NegInf else PosInf)
          else Finite (if neg then - m else m) u)"

text \<open>A float literal of the source, written as the fraction it denotes: \<open>0.111\<close> is \<open>float_lit 111 1000\<close>.\<close>

definition float_lit :: "int \<Rightarrow> int \<Rightarrow> pyfloat" where
  "float_lit n d = round_double False n d"

text \<open>
  \<open>fin_diff m e m' e'\<close> has the sign of \<open>m * 2 ^ e - m' * 2 ^ e'\<close>: the difference
  brought to the smaller of the two exponents.
\<close>

definition fin_diff :: "int \<Rightarrow> int \<Rightarrow> int \<Rightarrow> int \<Rightarrow> int" where
  "fin_diff m e m' e' = (let k = min e e' in m * 2 ^ nat (e - k) - m' * 2 ^ nat (e' - k))"

definition float_eq :: "pyfloat \<Rightarrow> pyfloat \<Rightarrow> bool" where
  "float_eq x y =
    (case (x, y) of
       (Finite m e, Finite m' e') \<Rightarrow> fin_diff m e m' e' = 0
     | (PosInf, PosInf) \<Rightarrow> True
     | (NegInf, NegInf) \<Rightarrow> True
     | _ \<Rightarrow> False)"

definition float_less :: "pyfloat \<Rightarrow> pyfloat \<Rightarrow> bool" where
  "float_less x y =
    (case (x, y) of
       (Finite m e, Finite m' e') \<Rightarrow> fin_diff m e m' e' < 0
     | (Finite m e, PosInf) \<Rightarrow> True
     | (NegInf, Finite m e) \<Rightarrow> True
     | (NegInf, PosInf) \<Rightarrow> True
     | _ \<Rightarrow> False)"

definition float_nonneg :: "pyfloat \<Rightarrow> bool" where
  "float_nonneg x = (case x of Finite m e \<Rightarrow> 0 \<le> m | PosInf \<Rightarrow> True | _ \<Rightarrow> False)"

definition float_neg :: "pyfloat \<Rightarrow> pyfloat" where
  "float_neg x =
    (case x of Finite m e \<Rightarrow> Finite (- m) e | PosInf \<Rightarrow> NegInf | NegInf \<Rightarrow> PosInf | NaN \<Rightarrow> NaN)"


definition float_mul :: "pyfloat \<Rightarrow> pyfloat \<Rightarrow> pyfloat" where
  "float_mul x y =
    (case (x, y) of
       (Finite m e, Finite m' e') \<Rightarrow>
         (let p = m * m'; u = e + e'
          in if u \<ge> 0 then round_double (p < 0) (\<bar>p\<bar> * 2 ^ nat u) 1
             else round_double (p < 0) \<bar>p\<bar> (2 ^ nat (- u)))
     | (NaN, _) \<Rightarrow> NaN
     | (_, NaN) \<Rightarrow> NaN
     | (Finite m e, PosInf) \<Rightarrow> if m = 0 then NaN else if m < 0 then NegInf else PosInf
     | (Finite m e, NegInf) \<Rightarrow> if m = 0 then NaN else if m < 0 then PosInf else NegInf
     | (PosInf, Finite m e) \<Rightarrow> if m = 0 then NaN else if m < 0 then NegInf else PosInf
     | (NegInf, Finite m e) \<Rightarrow> if m = 0 then NaN else if m < 0 then PosInf else NegInf
     | (PosInf, PosInf) \<Rightarrow> PosInf
     | (NegInf, NegInf) \<Rightarrow> PosInf
     | (PosInf, NegInf) \<Rightarrow> NegInf
     | (NegInf, PosInf) \<Rightarrow> NegInf)"

definition float_add :: "pyfloat \<Rightarrow> pyfloat \<Rightarrow> pyfloat" where
  "float_add x y =
    (case (x, y) of
       (Finite m e, Finite m' e') \<Rightarrow>
         (let k = min e e'; s = m * 2 ^ nat (e - k) + m' * 2 ^ nat (e' - k)
          in if k \<ge> 0 then round_double (s < 0) (\<bar>s\<bar> * 2 ^ nat k) 1
             else round_double (s < 0) \<bar>s\<bar> (2 ^ nat (- k)))
     | (NaN, _) \<Rightarrow> NaN
     | (_, NaN) \<Rightarrow> NaN
     | (PosInf, NegInf) \<Rightarrow> NaN
     | (NegInf, PosInf) \<Rightarrow> NaN
     | (PosInf, _) \<Rightarrow> PosInf
     | (NegInf, _) \<Rightarrow> NegInf
     | (_, PosInf) \<Rightarrow> PosInf
     | (_, NegInf) \<Rightarrow> NegInf)"



text \<open>\<open>int(x)\<close> truncates towards zero; an infinity raises OverflowError, a NaN ValueError.\<close>

definition py_int_of_float :: "pyfloat \<Rightarrow> pyerr + int" where
  "py_int_of_float x =
    (case x of
       Finite m e \<Rightarrow>
         Inr (if e \<ge> 0 then m * 2 ^ nat e
              else if m \<ge> 0 then m div 2 ^ nat (- e)
              else - ((- m) div 2 ^ nat (- e)))
     | PosInf \<Rightarrow> Inl OverflowError
     | NegInf \<Rightarrow> Inl OverflowError
     | NaN \<Rightarrow> Inl ValueError)"









section \<open>modules/pytag\_module.py: the BLE side\<close>

subsection \<open>AirTagDetector.is\_airtag\<close>

text \<open>
  \<open>apple_data\<close> is a Python \<open>bytes\<close> object: a list of 8-bit words. Indexing it
  outside its length raises IndexError; every index of the source is a
  non-negative literal.
\<close>

definition byte_at :: "8 word list \<Rightarrow> nat \<Rightarrow> pyerr + 8 word" where
  "byte_at bs i = (if i < length bs then Inr (bs ! i) else Inl IndexError)"

definition is_airtag :: "8 word list \<Rightarrow> pyerr + bool" where
  "is_airtag apple_data =
    (if length apple_data < 2 then Inr False
     else and_then (byte_at apple_data 0) (\<lambda>payload_type.
       if payload_type = 0x12 then
         (if length apple_data \<ge> 3 then
            and_then (byte_at apple_data 1) (\<lambda>payload_length.
              if payload_length = 0x19 \<and> length apple_data \<ge> 4 then
                and_then (byte_at apple_data 2) (\<lambda>status_byte.
                  Inr (status_byte = 0x10))
              else Inr False)
          else Inr False)
       else if payload_type = 0x07 then
         (if length apple_data \<ge> 2 then
            and_then (byte_at apple_data 1) (\<lambda>payload_length.
              Inr (payload_length = 0x19))
          else Inr False)
       else Inr False))"

subsection \<open>AirTagDetector.calculate\_distance\<close>


subsection \<open>AirTagDevice and the registry \<open>detected_airtags\<close>\<close>

text \<open>
  A \<open>datetime\<close> has microsecond resolution and a bounded range: it is the number of
  microseconds since \<open>datetime.min\<close>, the first instant of year 1, and the last one,
  \<open>datetime.max\<close>, is microsecond \<open>datetime_max_us\<close> (year 9999 ends there).
  \<open>last_seen\<close> is such a number. \<open>distance\<close> is the Python float that
  \<open>calculate_distance\<close> produced; the registry stores it and never computes with it,
  so its type is a parameter here. \<open>trend\<close> is the string the source stores:
  \<open>''red''\<close> for a rising signal, \<open>''blue''\<close> for a falling one, \<open>''green''\<close> for a
  stable one.
\<close>

record 'f AirTagDevice =
  address :: string
  rssi :: int
  distance :: 'f
  trend :: string
  count :: int
  last_seen :: int
  details :: string

text \<open>
  A Python \<open>dict\<close> keeps its keys in insertion order: an association list, in which
  assigning to an existing key replaces the value in place and assigning to a new
  key appends (\<open>AList.update\<close>). \<open>del d[k]\<close> raises KeyError on a missing key.
\<close>

type_synonym 'f registry = "(string \<times> 'f AirTagDevice) list"

definition dict_del :: "'k \<Rightarrow> ('k \<times> 'v) list \<Rightarrow> pyerr + ('k \<times> 'v) list" where
  "dict_del k d = (if k \<in> fst ` set d then Inr (AList.delete k d) else Inl KeyError)"

text \<open>
  \<open>self.device_timeout\<close> is the number a caller passed as \<open>timeout\<close>: an integer
  (60 by default) or a float; any other type makes \<open>timedelta\<close> raise TypeError
  and is not a \<open>pynum\<close>. \<open>timedelta(seconds=x)\<close> is a number of microseconds.
  For an integer it is \<open>x * 1000000\<close>. For a float the whole seconds are converted
  exactly, the fraction is multiplied by \<open>1000000.0\<close> in float arithmetic and the
  sum is rounded to the nearest microsecond, ties to even; an infinity raises
  OverflowError and a NaN ValueError. A \<open>timedelta\<close> holds at most 999999999 days
  either way: beyond that the constructor raises OverflowError.
\<close>

datatype pynum = PyInt int | PyFloat pyfloat

definition timedelta_min_us :: int where
  "timedelta_min_us = - 999999999 * 86400000000"

definition timedelta_max_us :: int where
  "timedelta_max_us = 999999999 * 86400000000 + 86399999999"

definition new_timedelta :: "int \<Rightarrow> pyerr + int" where
  "new_timedelta us =
    (if timedelta_min_us \<le> us \<and> us \<le> timedelta_max_us then Inr us else Inl OverflowError)"

definition timedelta_seconds :: "pynum \<Rightarrow> pyerr + int" where
  "timedelta_seconds x =
    (case x of
       PyInt n \<Rightarrow> new_timedelta (n * 1000000)
     | PyFloat d \<Rightarrow>
         and_then (py_int_of_float d) (\<lambda>intpart.
           case float_add d (float_neg (Finite intpart 0)) of
             Finite fm fe \<Rightarrow>
               if fm = 0 then new_timedelta (intpart * 1000000)
               else
                 (case float_mul (Finite 1000000 0) (Finite fm fe) of
                    Finite m e \<Rightarrow>
                      new_timedelta
                        (intpart * 1000000
                         + (if e \<ge> 0 then m * 2 ^ nat e else round_half_even m (2 ^ nat (- e))))
                  | _ \<Rightarrow> Inl OverflowError)
           | _ \<Rightarrow> Inl OverflowError))"

text \<open>
  \<open>datetime - timedelta\<close> raises OverflowError when the result is not a
  \<open>datetime\<close>: before year 1 or after year 9999.
\<close>

definition datetime_max_us :: int where
  "datetime_max_us = 3652059 * 86400000000 - 1"

definition datetime_sub :: "int \<Rightarrow> int \<Rightarrow> pyerr + int" where
  "datetime_sub t delta =
    (if 0 \<le> t - delta \<and> t - delta \<le> datetime_max_us then Inr (t - delta)
     else Inl OverflowError)"

text \<open>
  The critical section of \<open>detection_callback\<close> (the body of
  \<open>with self.airtags_lock\<close>): \<open>address\<close> and \<open>rssi\<close> come from the
  advertisement, \<open>distance\<close> and \<open>details\<close> were computed before the lock is taken,
  \<open>current_time\<close> is what \<open>datetime.now(timezone.utc)\<close> returns.
\<close>

definition ingest ::
  "string \<Rightarrow> int \<Rightarrow> 'f \<Rightarrow> string \<Rightarrow> int \<Rightarrow> 'f registry \<Rightarrow> 'f registry" where
  "ingest addr new_rssi new_distance new_details current_time detected_airtags =
    (case map_of detected_airtags addr of
       Some old_device \<Rightarrow>
         (let trend =
            (if new_rssi > rssi old_device then ''red''
             else if new_rssi < rssi old_device then ''blue''
             else ''green'')
          in AList.update addr
               \<lparr>address = addr, rssi = new_rssi, distance = new_distance, trend = trend,
                count = count old_device + 1, last_seen = current_time,
                details = new_details\<rparr>
               detected_airtags)
     | None \<Rightarrow>
         AList.update addr
           \<lparr>address = addr, rssi = new_rssi, distance = new_distance, trend = ''green'',
            count = 1, last_seen = current_time, details = new_details\<rparr>
           detected_airtags)"

text \<open>
  \<open>cleanup_stale_devices\<close> changes the registry in place and returns nothing, so
  its result is the exception that left it, if any, together with the registry it
  leaves behind. The threshold is computed first: when \<open>timedelta\<close> or the
  subtraction raises, nothing has been deleted yet. Then the list comprehension
  collects the stale addresses and the loop deletes them one by one; a deletion that
  raised would leave the function with the earlier deletions done.
\<close>

fun del_all :: "'k list \<Rightarrow> ('k \<times> 'v) list \<Rightarrow> pyerr option \<times> ('k \<times> 'v) list" where
  "del_all [] d = (None, d)"
| "del_all (addr # addrs) d =
    (case dict_del addr d of Inl e \<Rightarrow> (Some e, d) | Inr d' \<Rightarrow> del_all addrs d')"

definition stale_addresses :: "int \<Rightarrow> 'f registry \<Rightarrow> string list" where
  "stale_addresses timeout_threshold detected_airtags =
    map fst (filter (\<lambda>(addr, device). last_seen device < timeout_threshold) detected_airtags)"

definition timeout_threshold :: "pynum \<Rightarrow> int \<Rightarrow> pyerr + int" where
  "timeout_threshold device_timeout current_time =
    and_then (timedelta_seconds device_timeout) (datetime_sub current_time)"

definition cleanup_stale_devices ::
  "pynum \<Rightarrow> int \<Rightarrow> 'f registry \<Rightarrow> pyerr option \<times> 'f registry" where
  "cleanup_stale_devices device_timeout current_time detected_airtags =
    (case timeout_threshold device_timeout current_time of
       Inl e \<Rightarrow> (Some e, detected_airtags)
     | Inr threshold \<Rightarrow>
         del_all (stale_addresses threshold detected_airtags) detected_airtags)"

text \<open>
  The snapshot the display takes (\<open>create_display_table\<close>): a copy of the registry
  sorted by RSSI, strongest first. Python's \<open>sorted\<close> is stable, also with
  \<open>reverse=True\<close>, and so is \<open>sort_key\<close> on the negated key.
\<close>

definition snapshot :: "'f registry \<Rightarrow> (string \<times> 'f AirTagDevice) list" where
  "snapshot detected_airtags = sort_key (\<lambda>(addr, device). - rssi device) detected_airtags"

section \<open>Python strings and numbers used by modules/wss\_module.py\<close>

text \<open>
  A Python \<open>str\<close> is a list of code points. It is modelled as a HOL \<open>string\<close>,
  each \<open>char\<close> standing for the code point of the same number, so the lines of
  the model are the strings over the code points 0 to 255. The tables below are the
  restriction of Python's (\<open>str.isspace\<close>, \<open>str.isdigit\<close>) to that range.
\<close>

definition py_isspace :: "char \<Rightarrow> bool" where
  "py_isspace c = (c \<in> {CHR 0x09, CHR 0x0A, CHR 0x0B, CHR 0x0C, CHR 0x0D, CHR 0x1C, CHR 0x1D,
                         CHR 0x1E, CHR 0x1F, CHR 0x20, CHR 0x85, CHR 0xA0})"

definition py_strip :: "string \<Rightarrow> string" where
  "py_strip s = rev (dropWhile py_isspace (rev (dropWhile py_isspace s)))"

definition is_ascii_digit :: "char \<Rightarrow> bool" where
  "is_ascii_digit c = (c \<in> set ''0123456789'')"

text \<open>
  \<open>str.isdigit\<close> also holds of the superscript digits U+00B2, U+00B3 and U+00B9,
  which \<open>int\<close> does not accept.
\<close>

definition py_isdigit_char :: "char \<Rightarrow> bool" where
  "py_isdigit_char c = (is_ascii_digit c \<or> c \<in> {CHR 0xB2, CHR 0xB3, CHR 0xB9})"

definition py_isdigit :: "string \<Rightarrow> bool" where
  "py_isdigit s = (s \<noteq> [] \<and> list_all py_isdigit_char s)"

text \<open>\<open>s.split(c)\<close> for a separator of one character: never empty, one more field than separators.\<close>

fun py_split :: "char \<Rightarrow> string \<Rightarrow> string list" where
  "py_split sep [] = [[]]"
| "py_split sep (x # xs) =
    (if x = sep then [] # py_split sep xs
     else (case py_split sep xs of
             [] \<Rightarrow> [[x]]
           | part # parts \<Rightarrow> (x # part) # parts))"

fun py_join :: "string \<Rightarrow> string list \<Rightarrow> string" where
  "py_join sep [] = []"
| "py_join sep [p] = p"
| "py_join sep (p # q # ps) = p @ sep @ py_join sep (q # ps)"

text \<open>
  \<open>s.replace(old, new)\<close> for a non-empty \<open>old\<close> (the source replaces \<open>'MHz'\<close>,
  \<open>'GHz'\<close>, a space and a backslash): occurrences are replaced from the left, without
  overlap.
\<close>

function py_replace :: "string \<Rightarrow> string \<Rightarrow> string \<Rightarrow> string" where
  "py_replace old new [] = []"
| "py_replace old new (x # xs) =
    (if old \<noteq> [] \<and> take (length old) (x # xs) = old
     then new @ py_replace old new (drop (length old) (x # xs))
     else x # py_replace old new xs)"
  by pat_completeness auto
termination
  by (relation "measure (\<lambda>(old, new, s). length s)") auto

text \<open>
  \<open>str.upper\<close> on ASCII text. Its only call is on a string that matched
  \<open>mac_pattern\<close>, which consists of ASCII characters.
\<close>

definition upper_char :: "char \<Rightarrow> char" where
  "upper_char c =
    (case map_of (zip ''abcdefghijklmnopqrstuvwxyz'' ''ABCDEFGHIJKLMNOPQRSTUVWXYZ'') c of
       None \<Rightarrow> c
     | Some u \<Rightarrow> u)"

definition py_upper :: "string \<Rightarrow> string" where
  "py_upper s = map upper_char s"

definition list_at :: "'a list \<Rightarrow> nat \<Rightarrow> pyerr + 'a" where
  "list_at xs i = (if i < length xs then Inr (xs ! i) else Inl IndexError)"

subsection \<open>\<open>int(str)\<close>\<close>

text \<open>
  \<open>int(s)\<close> accepts optional whitespace, an optional sign, decimal digits in groups
  separated by single underscores, and optional whitespace; anything else raises
  ValueError, and so do more than \<open>int_max_str_digits\<close> digits (4300 unless the
  interpreter is configured otherwise). The whitespace it skips is not that of
  \<open>str.strip\<close>: U+001C to U+001F are not skipped.
\<close>

definition num_space :: "char \<Rightarrow> bool" where
  "num_space c = (c \<in> {CHR 0x09, CHR 0x0A, CHR 0x0B, CHR 0x0C, CHR 0x0D, CHR 0x20, CHR 0x85, CHR 0xA0})"

definition digit_val :: "char \<Rightarrow> int" where
  "digit_val c = (of_char c :: int) - 48"

definition dec_val :: "string \<Rightarrow> int" where
  "dec_val ds = foldl (\<lambda>acc c. 10 * acc + digit_val c) 0 ds"

definition int_max_str_digits :: nat where
  "int_max_str_digits = 4300"

text \<open>
  A run of digits and underscores is well formed when it starts and ends with a digit
  and has no two underscores in a row; \<open>prev\<close> is the character before the rest.
\<close>

fun digits_ok :: "char \<Rightarrow> string \<Rightarrow> bool" where
  "digits_ok prev [] = is_ascii_digit prev"
| "digits_ok prev (c # cs) =
    (if c = CHR ''_'' then is_ascii_digit prev \<and> digits_ok c cs
     else is_ascii_digit c \<and> digits_ok c cs)"

definition split_sign :: "string \<Rightarrow> int \<times> string" where
  "split_sign s =
    (case s of
       [] \<Rightarrow> (1, [])
     | c # cs \<Rightarrow> if c = CHR ''+'' then (1, cs) else if c = CHR ''-'' then (-1, cs) else (1, s))"

definition py_int :: "string \<Rightarrow> pyerr + int" where
  "py_int s =
    (let (sgn, t) = split_sign (dropWhile num_space s);
         body = takeWhile (\<lambda>c. is_ascii_digit c \<or> c = CHR ''_'') t;
         rest = dropWhile (\<lambda>c. is_ascii_digit c \<or> c = CHR ''_'') t;
         ds = filter is_ascii_digit body
     in if \<not> digits_ok (CHR ''_'') body then Inl ValueError
        else if length ds > int_max_str_digits then Inl ValueError
        else if dropWhile num_space rest \<noteq> [] then Inl ValueError
        else Inr (sgn * dec_val ds))"

subsection \<open>\<open>float(str)\<close>\<close>

text \<open>
  \<open>float(s)\<close>: surrounding whitespace is skipped; underscores may stand between two
  digits and are dropped; what remains is an optional sign followed by \<open>inf\<close>,
  \<open>infinity\<close> or \<open>nan\<close> in any case, or by a decimal mantissa with at least one
  digit and an optional exponent. Anything else raises ValueError. A decimal too
  large for a float gives an infinity, not an exception.
\<close>

fun underscores_ok :: "char \<Rightarrow> string \<Rightarrow> bool" where
  "underscores_ok prev [] = (prev \<noteq> CHR ''_'')"
| "underscores_ok prev (c # cs) =
    (if c = CHR ''_'' then is_ascii_digit prev \<and> underscores_ok c cs
     else if prev = CHR ''_'' then is_ascii_digit c \<and> underscores_ok c cs
     else underscores_ok c cs)"

definition lower_char :: "char \<Rightarrow> char" where
  "lower_char c =
    (case map_of (zip ''ABCDEFGHIJKLMNOPQRSTUVWXYZ'' ''abcdefghijklmnopqrstuvwxyz'') c of
       None \<Rightarrow> c
     | Some l \<Rightarrow> l)"

definition parse_exponent :: "string \<Rightarrow> pyerr + int" where
  "parse_exponent r =
    (case r of
       [] \<Rightarrow> Inr 0
     | c # cs \<Rightarrow>
         if c = CHR ''e'' \<or> c = CHR ''E'' then
           (let (sgn, ds) = split_sign cs
            in if ds \<noteq> [] \<and> list_all is_ascii_digit ds then Inr (sgn * dec_val ds)
               else Inl ValueError)
         else Inl ValueError)"

definition parse_decimal :: "bool \<Rightarrow> string \<Rightarrow> pyerr + pyfloat" where
  "parse_decimal neg t =
    (let ip = takeWhile is_ascii_digit t;
         r1 = dropWhile is_ascii_digit t;
         fp = (case r1 of [] \<Rightarrow> [] | c # cs \<Rightarrow> if c = CHR ''.'' then takeWhile is_ascii_digit cs else []);
         r2 = (case r1 of [] \<Rightarrow> [] | c # cs \<Rightarrow> if c = CHR ''.'' then dropWhile is_ascii_digit cs else r1)
     in if ip = [] \<and> fp = [] then Inl ValueError
        else and_then (parse_exponent r2) (\<lambda>ex.
          let m = dec_val (ip @ fp); k = ex - int (length fp)
          in Inr (if k \<ge> 0 then round_double neg (m * 10 ^ nat k) 1
                  else round_double neg m (10 ^ nat (- k)))))"

definition py_float :: "string \<Rightarrow> pyerr + pyfloat" where
  "py_float s =
    (let t = rev (dropWhile num_space (rev (dropWhile num_space s)))
     in if \<not> underscores_ok (CHR 0x00) t then Inl ValueError
        else
          let (sgn, u) = split_sign (filter (\<lambda>c. c \<noteq> CHR ''_'') t);
              w = map lower_char u
          in if w = ''inf'' \<or> w = ''infinity'' then Inr (if sgn < 0 then NegInf else PosInf)
             else if w = ''nan'' then Inr NaN
             else parse_decimal (sgn < 0) u)"

section \<open>modules/wss\_module.py: the WiFi side\<close>

subsection \<open>WiFiNetwork\<close>

text \<open>
  The dataclass \<open>WiFiNetwork\<close>. Its field \<open>rssi\<close> is \<open>net_rssi\<close> here, the name
  \<open>rssi\<close> being the field of \<open>AirTagDevice\<close>.
\<close>

record WiFiNetwork =
  ssid :: string
  security :: string
  signal :: int
  frequency :: int
  band :: string
  channel :: "int option"
  bssid :: "string option"
  net_rssi :: "int option"
  timestamp :: "string option"

text \<open>
  \<open>__post_init__\<close>: \<open>now_iso\<close> is what \<open>datetime.now().isoformat()\<close> returns.
  The test \<open>self.frequency and self.frequency > 0\<close> is that the frequency is not zero
  and is positive.
\<close>

definition post_init :: "string \<Rightarrow> WiFiNetwork \<Rightarrow> WiFiNetwork" where
  "post_init now_iso self =
    (let self1 = (if timestamp self = None then self\<lparr>timestamp := Some now_iso\<rparr> else self)
     in if frequency self1 \<noteq> 0 \<and> frequency self1 > 0 then
          (if 2400 \<le> frequency self1 \<and> frequency self1 \<le> 2500 then self1\<lparr>band := ''2.4GHz''\<rparr>
           else if 5000 \<le> frequency self1 \<and> frequency self1 \<le> 6000 then self1\<lparr>band := ''5GHz''\<rparr>
           else if frequency self1 \<ge> 6000 then self1\<lparr>band := ''6GHz''\<rparr>
           else self1\<lparr>band := ''Unknown''\<rparr>)
        else self1\<lparr>band := ''Unknown''\<rparr>)"

subsection \<open>WiFiScanner.\_frequency\_to\_channel, \_parse\_channel, \_parse\_frequency\<close>

definition freq_to_chan_5g :: "(int \<times> int) list" where
  "freq_to_chan_5g =
    [(5180, 36), (5200, 40), (5220, 44), (5240, 48),
     (5260, 52), (5280, 56), (5300, 60), (5320, 64),
     (5500, 100), (5520, 104), (5540, 108), (5560, 112),
     (5580, 116), (5600, 120), (5620, 124), (5640, 128),
     (5660, 132), (5680, 136), (5700, 140), (5720, 144),
     (5745, 149), (5765, 153), (5785, 157), (5805, 161),
     (5825, 165)]"

definition frequency_to_channel :: "int \<Rightarrow> int option" where
  "frequency_to_channel freq =
    (if 2412 \<le> freq \<and> freq \<le> 2484 then
       (if freq = 2484 then Some 14 else Some ((freq - 2412) div 5 + 1))
     else if 5000 \<le> freq \<and> freq \<le> 6000 then map_of freq_to_chan_5g freq
     else None)"

definition parse_channel :: "string \<Rightarrow> int \<Rightarrow> pyerr + int option" where
  "parse_channel channel_str freq =
    (if channel_str \<noteq> [] \<and> py_isdigit channel_str then
       and_then (py_int channel_str) (\<lambda>c. Inr (Some c))
     else if freq > 0 then Inr (frequency_to_channel freq)
     else Inr None)"

text \<open>\<open>except ValueError: return 0\<close>: only ValueError is handled, any other exception leaves the function.\<close>

definition parse_frequency :: "string \<Rightarrow> pyerr + int" where
  "parse_frequency freq_str =
    (if freq_str = [] then Inr 0
     else
       let freq_clean =
             py_strip (py_replace [CHR 0x20] [] (py_replace ''GHz'' [] (py_replace ''MHz'' [] freq_str)));
           attempt =
             (if CHR ''.'' \<in> set freq_clean then
                and_then (py_float freq_clean) (\<lambda>x.
                  py_int_of_float (float_mul x (Finite 1000 0)))
              else py_int freq_clean)
       in (case attempt of Inl ValueError \<Rightarrow> Inr 0 | Inl e \<Rightarrow> Inl e | Inr v \<Rightarrow> Inr v))"

subsection \<open>WiFiScanner.\_validate\_bssid\<close>

text \<open>
  The two regular expressions, matched with \<open>re.match\<close>. The character class is
  the ASCII one, \<open>{2}\<close> and \<open>{5}\<close> are exact counts, and \<open>$\<close> matches at the end
  of the string and also before a newline that ends it.
\<close>

definition is_hex :: "char \<Rightarrow> bool" where
  "is_hex c = (c \<in> set ''0123456789ABCDEFabcdef'')"

fun octet_groups :: "nat \<Rightarrow> string \<Rightarrow> bool" where
  "octet_groups 0 s = (case s of [a, b] \<Rightarrow> is_hex a \<and> is_hex b | _ \<Rightarrow> False)"
| "octet_groups (Suc n) s =
    (case s of
       a # b # c # rest \<Rightarrow>
         is_hex a \<and> is_hex b \<and> (c = CHR '':'' \<or> c = CHR ''-'') \<and> octet_groups n rest
     | _ \<Rightarrow> False)"

definition before_final_newline :: "(string \<Rightarrow> bool) \<Rightarrow> string \<Rightarrow> bool" where
  "before_final_newline p s = (p s \<or> (s \<noteq> [] \<and> last s = CHR 0x0A \<and> p (butlast s)))"

definition mac_pattern :: "string \<Rightarrow> bool" where
  "mac_pattern s = before_final_newline (octet_groups 5) s"

definition partial_pattern :: "string \<Rightarrow> bool" where
  "partial_pattern s = before_final_newline (octet_groups 0) s"

definition validate_bssid :: "string \<Rightarrow> string option" where
  "validate_bssid bssid_raw =
    (if bssid_raw = [] then None
     else
       let b = py_strip (py_replace [CHR 0x5C] [] bssid_raw)
       in if mac_pattern b then Some (py_upper b)
          else if partial_pattern b then None
          else None)"

subsection \<open>WiFiScanner.\_parse\_nmcli\_line\_robust\<close>

text \<open>
  The dictionary the parser returns, with its six keys as fields (\<open>'ssid'\<close> is
  \<open>f_ssid\<close>, and so on). The result is \<open>Inr None\<close> when the source returns \<open>None\<close>,
  \<open>Inr (Some d)\<close> when it returns the dictionary, \<open>Inl e\<close> when exception \<open>e\<close>
  leaves the function: the \<open>try\<close> block handles ValueError and IndexError only.
\<close>

record nmcli_fields =
  f_ssid :: string
  f_security :: string
  f_signal :: int
  f_frequency :: int
  f_bssid :: "string option"
  f_channel :: "int option"

definition parse_nmcli_line_robust :: "string \<Rightarrow> pyerr + nmcli_fields option" where
  "parse_nmcli_line_robust line =
    (if py_strip line = [] then Inr None
     else
       let parts = py_split (CHR '':'') line
       in if length parts < 8 then Inr None
          else
            let attempt =
              and_then (list_at parts 0) (\<lambda>p0.
              and_then (list_at parts 1) (\<lambda>p1.
              and_then (list_at parts 2) (\<lambda>p2.
              and_then (list_at parts 3) (\<lambda>p3.
                let ssid_v = py_strip p0;
                    security_v = py_strip p1;
                    signal_str = py_strip p2;
                    freq_str = py_strip p3;
                    bssid_parts = take 6 (drop 4 parts);
                    bssid_raw = py_join '':'' bssid_parts
                in and_then (if length parts > 10 then list_at parts 10 else Inr [])
                     (\<lambda>channel_str.
                   let bssid_v = validate_bssid bssid_raw
                   in and_then (if py_isdigit signal_str then py_int signal_str else Inr 0)
                        (\<lambda>signal_v.
                      and_then (parse_frequency freq_str) (\<lambda>freq.
                      and_then (parse_channel channel_str freq) (\<lambda>channel_v.
                        Inr (Some \<lparr>f_ssid = ssid_v, f_security = security_v,
                                   f_signal = signal_v, f_frequency = freq,
                                   f_bssid = bssid_v, f_channel = channel_v\<rparr>)))))))))
            in (case attempt of
                  Inl ValueError \<Rightarrow> Inr None
                | Inl IndexError \<Rightarrow> Inr None
                | Inl e \<Rightarrow> Inl e
                | Inr d \<Rightarrow> Inr d))"

subsection \<open>WiFiScanner.scan\_networks and \_add\_unique\_networks\<close>

text \<open>
  The loop of \<open>scan_networks\<close> over the lines of the tool's output. \<open>rssi_data\<close> is
  the dictionary built from the signal listing, \<open>now_iso\<close> the time stamp of the
  record; the clock is read once for each record, \<open>clock k\<close> being the reading for
  the record that follows \<open>k\<close> earlier ones. A line gives a record, or none
  (\<open>continue\<close>); an exception that leaves the parser leaves the loop and
  \<open>scan_networks\<close>, which has no handler.
\<close>

definition scan_line ::
  "(string \<rightharpoonup> int) \<Rightarrow> string \<Rightarrow> string \<Rightarrow> pyerr + WiFiNetwork option" where
  "scan_line rssi_data now_iso line =
    and_then (parse_nmcli_line_robust line) (\<lambda>parsed_data.
      case parsed_data of
        None \<Rightarrow> Inr None
      | Some d \<Rightarrow>
          if f_ssid d = [] then Inr None
          else Inr (Some (post_init now_iso
                 \<lparr>ssid = f_ssid d, security = f_security d, signal = f_signal d,
                  frequency = f_frequency d, band = ''Unknown'', channel = f_channel d,
                  bssid = f_bssid d, net_rssi = rssi_data (f_ssid d), timestamp = None\<rparr>)))"

fun scan_lines ::
  "(string \<rightharpoonup> int) \<Rightarrow> (nat \<Rightarrow> string) \<Rightarrow> string list \<Rightarrow> WiFiNetwork list
     \<Rightarrow> pyerr + WiFiNetwork list" where
  "scan_lines rssi_data clock [] networks = Inr networks"
| "scan_lines rssi_data clock (line # rest) networks =
    and_then (scan_line rssi_data (clock (length networks)) line) (\<lambda>r.
      case r of
        None \<Rightarrow> scan_lines rssi_data clock rest networks
      | Some network \<Rightarrow> scan_lines rssi_data clock rest (networks @ [network]))"

text \<open>
  The local variable \<open>identifier\<close> of the source,
  \<open>f"{network.ssid}|{network.bssid or 'no_bssid'}"\<close>: an absent or empty BSSID gives
  the placeholder.
\<close>

definition network_identifier :: "WiFiNetwork \<Rightarrow> string" where
  "network_identifier network =
    ssid network @ ''|'' @
      (case bssid network of
         None \<Rightarrow> ''no_bssid''
       | Some b \<Rightarrow> if b = [] then ''no_bssid'' else b)"

definition existing_networks :: "WiFiNetwork list \<Rightarrow> string set" where
  "existing_networks discovered_networks =
    fold (\<lambda>network existing. insert (network_identifier network) existing) discovered_networks {}"

fun add_loop ::
  "WiFiNetwork list \<Rightarrow> WiFiNetwork list \<times> string set \<Rightarrow> WiFiNetwork list \<times> string set" where
  "add_loop [] (discovered_networks, existing) = (discovered_networks, existing)"
| "add_loop (network # rest) (discovered_networks, existing) =
    (if network_identifier network \<notin> existing
     then add_loop rest (discovered_networks @ [network], insert (network_identifier network) existing)
     else add_loop rest (discovered_networks, existing))"

definition add_unique_networks :: "WiFiNetwork list \<Rightarrow> WiFiNetwork list \<Rightarrow> WiFiNetwork list" where
  "add_unique_networks new_networks discovered_networks =
    fst (add_loop new_networks (discovered_networks, existing_networks discovered_networks))"

text \<open>
  \<open>scan_networks\<close> from the output of the listing command on: the lines of the
  stripped output are parsed, the records are added to \<open>discovered_networks\<close>, and
  the records of this scan are returned with the new registry.
\<close>

definition scan_networks ::
  "(string \<rightharpoonup> int) \<Rightarrow> (nat \<Rightarrow> string) \<Rightarrow> string \<Rightarrow> WiFiNetwork list
     \<Rightarrow> pyerr + (WiFiNetwork list \<times> WiFiNetwork list)" where
  "scan_networks rssi_data clock output discovered_networks =
    and_then (scan_lines rssi_data clock (py_split (CHR 0x0A) (py_strip output)) [])
      (\<lambda>networks. Inr (networks, add_unique_networks networks discovered_networks))"

subsection \<open>What the specification calls a canonical MAC string\<close>

text \<open>
  These two predicates are not taken from the source. They state the shape of a
  recorded BSSID in the specification's words: six groups of two upper-case
  hexadecimal digits, separated by colons (\<open>canonical_mac\<close>), or separated each
  by a colon or a hyphen (\<open>separated_mac\<close>).
\<close>

definition is_upper_hex :: "char \<Rightarrow> bool" where
  "is_upper_hex c = (c \<in> set ''0123456789ABCDEF'')"

fun mac_shape :: "(char \<Rightarrow> bool) \<Rightarrow> nat \<Rightarrow> string \<Rightarrow> bool" where
  "mac_shape sep 0 s = (case s of [a, b] \<Rightarrow> is_upper_hex a \<and> is_upper_hex b | _ \<Rightarrow> False)"
| "mac_shape sep (Suc n) s =
    (case s of
       a # b # c # rest \<Rightarrow> is_upper_hex a \<and> is_upper_hex b \<and> sep c \<and> mac_shape sep n rest
     | _ \<Rightarrow> False)"

definition canonical_mac :: "string \<Rightarrow> bool" where
  "canonical_mac s = mac_shape (\<lambda>c. c = CHR '':'') 5 s"

definition separated_mac :: "string \<Rightarrow> bool" where
  "separated_mac s = mac_shape (\<lambda>c. c = CHR '':'' \<or> c = CHR ''-'') 5 s"

section \<open>Properties of floats\<close>

subsection \<open>Overflow to infinity\<close>

lemma bit_length_bounds:
  "0 < n \<Longrightarrow> 2 ^ (bit_length n - 1) \<le> n \<and> n < 2 ^ bit_length n"
proof (induction n rule: bit_length.induct)
  case (1 n)
  show ?case
  proof (cases "n div 2 \<le> 0")
    case True
    with "1.prems" have "n = 1" by linarith
    then show ?thesis by (simp add: bit_length.simps)
  next
    case False
    then have pos: "0 < n div 2" by simp
    have ih: "2 ^ (bit_length (n div 2) - 1) \<le> n div 2 \<and> n div 2 < 2 ^ bit_length (n div 2)"
      using "1.IH" "1.prems" pos by simp
    have bl: "bit_length n = Suc (bit_length (n div 2))"
      using "1.prems" by (subst bit_length.simps) simp
    have b1: "0 < bit_length (n div 2)"
      using pos by (subst bit_length.simps) simp
    then have "(2::int) ^ bit_length (n div 2) = 2 * 2 ^ (bit_length (n div 2) - 1)"
      by (cases "bit_length (n div 2)") simp_all
    then have lo: "2 ^ bit_length (n div 2) \<le> n" using ih by linarith
    have hi: "n < 2 * 2 ^ bit_length (n div 2)" using ih by linarith
    show ?thesis using lo hi bl by simp
  qed
qed

lemma floor_log2_ge:
  assumes "0 < n" "0 < d" "d * 2 ^ k \<le> n"
  shows "int k \<le> floor_log2 n d"
proof -
  let ?K = "int (bit_length n) - int (bit_length d)"
  have n_hi: "n < 2 ^ bit_length n" using bit_length_bounds [OF assms(1)] by simp
  have d_lo: "2 ^ (bit_length d - 1) \<le> d" using bit_length_bounds [OF assms(2)] by simp
  have "(2::int) ^ (bit_length d - 1 + k) = 2 ^ (bit_length d - 1) * 2 ^ k"
    by (simp add: power_add)
  also have "\<dots> \<le> d * 2 ^ k" using d_lo by (simp add: mult_right_mono)
  also have "\<dots> \<le> n" by (rule assms(3))
  also have "\<dots> < 2 ^ bit_length n" by (rule n_hi)
  finally have "bit_length d - 1 + k < bit_length n"
    by (simp add: power_strict_increasing_iff)
  then have K: "int k \<le> ?K" by linarith
  then have K0: "0 \<le> ?K" by linarith
  show ?thesis
  proof (cases "d * 2 ^ nat ?K \<le> n")
    case True
    then show ?thesis using K K0 by (simp add: floor_log2_def Let_def)
  next
    case False
    have "k < nat ?K"
    proof (rule ccontr)
      assume "\<not> k < nat ?K"
      then have "nat ?K \<le> k" by simp
      then have "(2::int) ^ nat ?K \<le> 2 ^ k" by (simp add: power_increasing)
      then have "d * 2 ^ nat ?K \<le> d * 2 ^ k" using assms(2) by (simp add: mult_left_mono)
      with assms(3) False show False by linarith
    qed
    then have "int k \<le> ?K - 1" by linarith
    then show ?thesis using False K0 by (simp add: floor_log2_def Let_def)
  qed
qed

lemma round_double_overflow:
  assumes "0 < d" "d * 2 ^ 1024 \<le> n"
  shows "round_double neg n d = (if neg then NegInf else PosInf)"
proof -
  have "0 < d * 2 ^ 1024" using assms(1) by simp
  with assms(2) have n: "0 < n" by linarith
  have "int 1024 \<le> floor_log2 n d" by (rule floor_log2_ge [OF n assms])
  then have "1024 \<le> floor_log2 n d" by simp
  then show ?thesis using n by (simp add: round_double_def Let_def)
qed

subsection \<open>Signs of results\<close>






lemma float_nonneg_simps [simp]:
  "float_nonneg (Finite m e) = (0 \<le> m)"
  "float_nonneg PosInf"
  "\<not> float_nonneg NegInf"
  "\<not> float_nonneg NaN"
  by (simp_all add: float_nonneg_def)






lemma float_zero_cmp [simp]:
  "float_eq (Finite m e) (Finite 0 0) = (m = 0)"
  "float_less (Finite m e) (Finite 0 0) = (m < 0)"
  "float_less (Finite 0 0) (Finite m e) = (0 < m)"
  by (simp_all add: float_eq_def float_less_def fin_diff_def Let_def zero_less_mult_iff
      mult_less_0_iff)











section \<open>Properties of the BLE side\<close>

subsection \<open>The advertisement classifier\<close>

text \<open>
  C1. For every payload, \<open>is_airtag\<close> returns (it never raises) and the value is
  true exactly when the payload has at least 4 bytes with byte 0 = 0x12, byte 1 = 0x19
  and byte 2 = 0x10, or at least 2 bytes with byte 0 = 0x07 and byte 1 = 0x19. A payload
  12 19 10 followed by at least one more byte is accepted, 12 19 11 is rejected,
  07 19 is accepted, 07 18 is rejected, a payload of one byte is rejected.
\<close>

theorem is_airtag_classifier:
  "is_airtag d = Inr ((length d \<ge> 4 \<and> d ! 0 = 0x12 \<and> d ! 1 = 0x19 \<and> d ! 2 = 0x10)
                      \<or> (length d \<ge> 2 \<and> d ! 0 = 0x07 \<and> d ! 1 = 0x19))
   \<and> is_airtag (0x12 # 0x19 # 0x10 # b # rest) = Inr True
   \<and> is_airtag (0x12 # 0x19 # 0x11 # rest) = Inr False
   \<and> is_airtag (0x07 # 0x19 # rest) = Inr True
   \<and> is_airtag (0x07 # 0x18 # rest) = Inr False
   \<and> is_airtag [b] = Inr False"
  by (auto simp: is_airtag_def and_then_def byte_at_def)

theorem is_airtag_classifier_witness:
  "is_airtag [0x12, 0x19, 0x10, 0x00, 0xAB] = Inr True \<and> is_airtag [0x12, 0x19, 0x10] = Inr False"
  using is_airtag_classifier [of "[0x12, 0x19, 0x10, 0x00, 0xAB]"]
        is_airtag_classifier [of "[0x12, 0x19, 0x10]"]
  by simp

subsection \<open>Ingestion into the device registry\<close>

lemma ingest_lookup:
  "map_of (ingest a r dv dt now reg) b =
    (if b = a then
       Some \<lparr>address = a, rssi = r, distance = dv,
             trend = (case map_of reg a of None \<Rightarrow> ''green''
                      | Some old \<Rightarrow> if r > rssi old then ''red''
                                   else if r < rssi old then ''blue'' else ''green''),
             count = (case map_of reg a of None \<Rightarrow> 1 | Some old \<Rightarrow> count old + 1),
             last_seen = now, details = dt\<rparr>
     else map_of reg b)"
  by (simp add: ingest_def Let_def update_conv split: option.splits)

text \<open>
  C2. Ingesting a detection for an address that is already in the registry stores
  trend \<open>''red''\<close> (rising) when the new RSSI is greater than the stored one,
  \<open>''blue''\<close> (falling) when it is less, \<open>''green''\<close> (stable) when equal, and
  the stored count plus one; for an absent address it stores count 1 and trend
  \<open>''green''\<close>. Other addresses keep their entry. Four ingests with RSSI
  -70, -60, -60, -80 on one fresh address give trends green, red, green, blue and
  counts 1, 2, 3, 4.
\<close>

theorem ingest_trend_and_count:
  "(map_of reg a = Some old \<longrightarrow>
      (\<exists>dev. map_of (ingest a r dv dt now reg) a = Some dev
         \<and> count dev = count old + 1
         \<and> (r > rssi old \<longrightarrow> trend dev = ''red'')
         \<and> (r < rssi old \<longrightarrow> trend dev = ''blue'')
         \<and> (r = rssi old \<longrightarrow> trend dev = ''green'')
         \<and> address dev = a \<and> rssi dev = r \<and> distance dev = dv
         \<and> last_seen dev = now \<and> details dev = dt))
   \<and> (map_of reg a = None \<longrightarrow>
      map_of (ingest a r dv dt now reg) a =
        Some \<lparr>address = a, rssi = r, distance = dv, trend = ''green'', count = 1,
              last_seen = now, details = dt\<rparr>)
   \<and> (b \<noteq> a \<longrightarrow> map_of (ingest a r dv dt now reg) b = map_of reg b)
   \<and> (map_of reg a = None \<longrightarrow>
      (let r1 = ingest a (-70) d1 s1 t1 reg;
           r2 = ingest a (-60) d2 s2 t2 r1;
           r3 = ingest a (-60) d3 s3 t3 r2;
           r4 = ingest a (-80) d4 s4 t4 r3
       in map (\<lambda>reg'. map_option (\<lambda>dev. (trend dev, count dev)) (map_of reg' a))
            [r1, r2, r3, r4]
          = [Some (''green'', 1), Some (''red'', 2), Some (''green'', 3), Some (''blue'', 4)]))"
proof (intro conjI impI)
  assume "map_of reg a = Some old"
  then show "\<exists>dev. map_of (ingest a r dv dt now reg) a = Some dev
         \<and> count dev = count old + 1
         \<and> (r > rssi old \<longrightarrow> trend dev = ''red'')
         \<and> (r < rssi old \<longrightarrow> trend dev = ''blue'')
         \<and> (r = rssi old \<longrightarrow> trend dev = ''green'')
         \<and> address dev = a \<and> rssi dev = r \<and> distance dev = dv
         \<and> last_seen dev = now \<and> details dev = dt"
    by (simp add: ingest_lookup)
next
  assume "map_of reg a = None"
  then show "map_of (ingest a r dv dt now reg) a =
        Some \<lparr>address = a, rssi = r, distance = dv, trend = ''green'', count = 1,
              last_seen = now, details = dt\<rparr>"
    by (simp add: ingest_lookup)
next
  assume "b \<noteq> a"
  then show "map_of (ingest a r dv dt now reg) b = map_of reg b"
    by (simp add: ingest_lookup)
next
  assume "map_of reg a = None"
  then show "let r1 = ingest a (-70) d1 s1 t1 reg;
           r2 = ingest a (-60) d2 s2 t2 r1;
           r3 = ingest a (-60) d3 s3 t3 r2;
           r4 = ingest a (-80) d4 s4 t4 r3
       in map (\<lambda>reg'. map_option (\<lambda>dev. (trend dev, count dev)) (map_of reg' a))
            [r1, r2, r3, r4]
          = [Some (''green'', 1), Some (''red'', 2), Some (''green'', 3), Some (''blue'', 4)]"
    by (simp add: ingest_lookup Let_def)
qed

theorem ingest_trend_and_count_witness:
  "map_of ([] :: real registry) ''AA:BB'' = None
   \<and> map_of (ingest ''AA:BB'' (-70) (2.5::real) ''y'' 10 []) ''AA:BB''
     = Some \<lparr>address = ''AA:BB'', rssi = -70, distance = 2.5, trend = ''green'', count = 1,
             last_seen = 10, details = ''y''\<rparr>
   \<and> map_of (ingest ''AA:BB'' (-60) 1.5 ''x'' 20
              (ingest ''AA:BB'' (-70) (2.5::real) ''y'' 10 [])) ''AA:BB''
     = Some \<lparr>address = ''AA:BB'', rssi = -60, distance = 1.5, trend = ''red'', count = 2,
             last_seen = 20, details = ''x''\<rparr>"
  using ingest_trend_and_count [of "[]" "''AA:BB''" _ "-70" "2.5::real" "''y''" 10]
    ingest_trend_and_count [of "ingest ''AA:BB'' (-70) (2.5::real) ''y'' 10 []" "''AA:BB''"
     "\<lparr>address = ''AA:BB'', rssi = -70, distance = 2.5, trend = ''green'', count = 1,
             last_seen = 10, details = ''y''\<rparr>" "-60" "1.5" "''x''" 20]
  by (simp add: ingest_def)

subsection \<open>The distance estimate\<close>














subsection \<open>Eviction of stale devices\<close>

lemma del_all_filter:
  "set ks \<subseteq> fst ` set d \<Longrightarrow> distinct ks \<Longrightarrow>
   del_all ks d = (None, filter (\<lambda>p. fst p \<notin> set ks) d)"
proof (induction ks arbitrary: d)
  case Nil
  then show ?case by simp
next
  case (Cons k ks)
  have k: "k \<in> fst ` set d" and nk: "k \<notin> set ks" and dk: "distinct ks"
    using Cons.prems by auto
  have sub: "set ks \<subseteq> fst ` set (AList.delete k d)"
    using Cons.prems nk by (force simp: AList.delete_eq)
  have "del_all (k # ks) d = del_all ks (AList.delete k d)"
    using k by (simp add: dict_del_def)
  also have "\<dots> = (None, filter (\<lambda>p. fst p \<notin> set ks) (AList.delete k d))"
    by (rule Cons.IH [OF sub dk])
  also have "filter (\<lambda>p. fst p \<notin> set ks) (AList.delete k d)
             = filter (\<lambda>p. fst p \<notin> set (k # ks)) d"
    by (auto simp: AList.delete_eq intro: filter_cong)
  finally show ?case .
qed

lemma stale_keys:
  "distinct (map fst d) \<Longrightarrow> p \<in> set d \<Longrightarrow>
   fst p \<in> set (stale_addresses th d) \<longleftrightarrow> last_seen (snd p) < th"
  by (cases p) (force simp: stale_addresses_def dest: eq_key_imp_eq_value)

lemma cleanup_filter:
  assumes "distinct (map fst d)" "timeout_threshold timeout now = Inr th"
  shows "cleanup_stale_devices timeout now d =
         (None, filter (\<lambda>(addr, device). \<not> last_seen device < th) d)"
proof -
  have 1: "set (stale_addresses th d) \<subseteq> fst ` set d"
    by (auto simp: stale_addresses_def)
  have 2: "distinct (stale_addresses th d)"
    using assms by (simp add: stale_addresses_def distinct_map_filter)
  have "filter (\<lambda>p. fst p \<notin> set (stale_addresses th d)) d
        = filter (\<lambda>(addr, device). \<not> last_seen device < th) d"
    using stale_keys [OF assms(1)] by (intro filter_cong) auto
  then show ?thesis
    using del_all_filter [OF 1 2] assms(2)
    by (simp add: cleanup_stale_devices_def)
qed

lemma cleanup_raises:
  "timeout_threshold timeout now = Inl e \<Longrightarrow>
   cleanup_stale_devices timeout now d = (Some e, d)"
  by (simp add: cleanup_stale_devices_def)

lemma set_snapshot: "set (snapshot d) = set d"
  by (simp add: snapshot_def)

lemma timeout_threshold_int:
  "timeout_threshold (PyInt n) now =
    (if timedelta_min_us \<le> n * 1000000 \<and> n * 1000000 \<le> timedelta_max_us
        \<and> 0 \<le> now - n * 1000000 \<and> now - n * 1000000 \<le> datetime_max_us
     then Inr (now - n * 1000000) else Inl OverflowError)"
  by (simp add: timeout_threshold_def timedelta_seconds_def new_timedelta_def datetime_sub_def
      and_then_def)

lemma timeout_threshold_Inr:
  "timeout_threshold timeout now = Inr th \<longleftrightarrow>
    (\<exists>delta. timedelta_seconds timeout = Inr delta \<and> th = now - delta
       \<and> 0 \<le> th \<and> th \<le> datetime_max_us)"
  by (auto simp: timeout_threshold_def datetime_sub_def and_then_def split: sum.splits)

lemma timeout_threshold_float_example:
  "timeout_threshold (PyFloat (float_lit 6025 100)) 63929304000000000 = Inr 63929303939750000"
  by code_simp

text \<open>
  C4, as stated, fails: not every timeout lets \<open>cleanup_stale_devices\<close> run to its
  end. At noon of 3 November 2026, with one entry last seen 1000 seconds before: the
  timeout \<open>-10 ^ 12\<close> seconds puts the threshold after year 9999, the subtraction
  raises OverflowError and the entry, which is older than \<open>now\<close> minus the timeout,
  stays; the timeout \<open>10 ^ 11\<close> seconds puts the threshold before year 1 and the
  subtraction raises OverflowError as well; the timeout NaN makes \<open>timedelta\<close> raise
  ValueError.
\<close>

theorem cleanup_threshold_overflow_counterexample:
  "cleanup_stale_devices (PyInt (- 1000000000000)) 63929304000000000
     [(''tag'', \<lparr>address = ''tag'', rssi = - 70, distance = Finite 5 (- 1), trend = ''green'',
        count = 1, last_seen = 63929303000000000, details = ''''\<rparr>)]
   = (Some OverflowError,
     [(''tag'', \<lparr>address = ''tag'', rssi = - 70, distance = Finite 5 (- 1), trend = ''green'',
        count = 1, last_seen = 63929303000000000, details = ''''\<rparr>)])
   \<and> (63929303000000000 :: int) < 63929304000000000 - (- 1000000000000) * 1000000
   \<and> cleanup_stale_devices (PyInt 100000000000) 63929304000000000
     [(''tag'', \<lparr>address = ''tag'', rssi = - 70, distance = Finite 5 (- 1), trend = ''green'',
        count = 1, last_seen = 63929303000000000, details = ''''\<rparr>)]
   = (Some OverflowError,
     [(''tag'', \<lparr>address = ''tag'', rssi = - 70, distance = Finite 5 (- 1), trend = ''green'',
        count = 1, last_seen = 63929303000000000, details = ''''\<rparr>)])
   \<and> cleanup_stale_devices (PyFloat NaN) 63929304000000000
     [(''tag'', \<lparr>address = ''tag'', rssi = - 70, distance = Finite 5 (- 1), trend = ''green'',
        count = 1, last_seen = 63929303000000000, details = ''''\<rparr>)]
   = (Some ValueError,
     [(''tag'', \<lparr>address = ''tag'', rssi = - 70, distance = Finite 5 (- 1), trend = ''green'',
        count = 1, last_seen = 63929303000000000, details = ''''\<rparr>)])"
proof -
  have 1: "timeout_threshold (PyInt (- 1000000000000)) 63929304000000000 = Inl OverflowError"
    by (simp add: timeout_threshold_int timedelta_min_us_def timedelta_max_us_def
        datetime_max_us_def)
  have 2: "timeout_threshold (PyInt 100000000000) 63929304000000000 = Inl OverflowError"
    by (simp add: timeout_threshold_int timedelta_min_us_def timedelta_max_us_def
        datetime_max_us_def)
  have 3: "timeout_threshold (PyFloat NaN) 63929304000000000 = Inl ValueError"
    by (simp add: timeout_threshold_def timedelta_seconds_def py_int_of_float_def and_then_def)
  show ?thesis
    by (simp add: cleanup_raises 1 2 3)
qed

text \<open>
  C4, amended. On a registry (a dict: no address occurs twice), whenever the
  threshold \<open>now - timedelta(seconds=timeout)\<close> is a \<open>datetime\<close>,
  \<open>cleanup_stale_devices\<close> returns without raising: every entry whose \<open>last_seen\<close>
  is older than the threshold is removed and is absent from the next snapshot, every
  entry whose \<open>last_seen\<close> is not older is kept unchanged and is in the next
  snapshot, the kept entries keep their order, and an address that was absent stays
  absent. Otherwise the exception of the threshold leaves the function and the
  registry is what it was. The threshold is a \<open>datetime\<close> exactly when \<open>timedelta\<close>
  returns and \<open>now\<close> minus its value lies between \<open>datetime.min\<close> and
  \<open>datetime.max\<close>; for an integer timeout \<open>n\<close> that is when \<open>n\<close> is between
  -86399999913600 and 86399999999999 seconds and \<open>now - n\<close> seconds is in that
  range, and the threshold is \<open>now - n * 1000000\<close> microseconds.
\<close>

theorem cleanup_stale_devices_evicts:
  assumes "distinct (map fst reg)"
  shows "(\<forall>th. timeout_threshold timeout now = Inr th \<longrightarrow>
       (\<exists>reg'. cleanup_stale_devices timeout now reg = (None, reg')
         \<and> reg' = filter (\<lambda>(addr, device). \<not> last_seen device < th) reg
         \<and> (\<forall>a dev. map_of reg a = Some dev \<and> last_seen dev < th \<longrightarrow>
               map_of reg' a = None \<and> a \<notin> fst ` set (snapshot reg'))
         \<and> (\<forall>a dev. map_of reg a = Some dev \<and> \<not> last_seen dev < th \<longrightarrow>
               map_of reg' a = Some dev \<and> (a, dev) \<in> set (snapshot reg'))
         \<and> (\<forall>a. map_of reg a = None \<longrightarrow>
               map_of reg' a = None \<and> a \<notin> fst ` set (snapshot reg'))))
     \<and> (\<forall>e. timeout_threshold timeout now = Inl e \<longrightarrow>
           cleanup_stale_devices timeout now reg = (Some e, reg))
     \<and> (\<forall>th. timeout_threshold timeout now = Inr th \<longleftrightarrow>
           (\<exists>delta. timedelta_seconds timeout = Inr delta \<and> th = now - delta
              \<and> 0 \<le> th \<and> th \<le> datetime_max_us))
     \<and> (\<forall>n. timeout = PyInt n \<longrightarrow>
           timeout_threshold timeout now =
             (if - 86399999913600 \<le> n \<and> n \<le> 86399999999999
                 \<and> 0 \<le> now - n * 1000000 \<and> now - n * 1000000 \<le> 315537897599999999
              then Inr (now - n * 1000000) else Inl OverflowError))"
proof (intro conjI allI impI)
  fix th
  assume th: "timeout_threshold timeout now = Inr th"
  let ?keep = "\<lambda>(addr, device :: 'a AirTagDevice). \<not> last_seen device < th"
  let ?reg' = "filter ?keep reg"
  have run: "cleanup_stale_devices timeout now reg = (None, ?reg')"
    by (rule cleanup_filter [OF assms th])
  have d': "distinct (map fst ?reg')"
    using assms by (simp add: distinct_map_filter)
  have look: "map_of ?reg' a = (case map_of reg a of None \<Rightarrow> None
                 | Some dev \<Rightarrow> if last_seen dev < th then None else Some dev)" for a
  proof (cases "map_of reg a")
    case None
    then have "a \<notin> fst ` set reg" by (simp add: map_of_eq_None_iff)
    then have "a \<notin> fst ` set ?reg'" by auto
    then have "map_of ?reg' a = None" by (rule map_of_eq_None_iff [THEN iffD2])
    with None show ?thesis by simp
  next
    case (Some dev)
    then have mem: "(a, dev) \<in> set reg" by (rule map_of_SomeD)
    show ?thesis
    proof (cases "last_seen dev < th")
      case True
      have "a \<notin> fst ` set ?reg'"
      proof
        assume "a \<in> fst ` set ?reg'"
        then obtain dev' where "(a, dev') \<in> set reg" "\<not> last_seen dev' < th" by auto
        with mem assms have "dev' = dev" by (auto dest: eq_key_imp_eq_value)
        with True \<open>\<not> last_seen dev' < th\<close> show False by simp
      qed
      then have "map_of ?reg' a = None" by (rule map_of_eq_None_iff [THEN iffD2])
      with Some True show ?thesis by simp
    next
      case False
      with mem have "(a, dev) \<in> set ?reg'" by simp
      with d' have "map_of ?reg' a = Some dev" by simp
      then show ?thesis using Some False by simp
    qed
  qed
  have keys: "a \<notin> fst ` set (snapshot ?reg')" if "map_of ?reg' a = None" for a
    using that by (simp add: set_snapshot map_of_eq_None_iff)
  have mem: "(a, dev) \<in> set (snapshot ?reg')" if "map_of ?reg' a = Some dev" for a dev
    using map_of_SomeD [OF that] by (simp only: set_snapshot)
  show "\<exists>reg'. cleanup_stale_devices timeout now reg = (None, reg')
         \<and> reg' = filter (\<lambda>(addr, device). \<not> last_seen device < th) reg
         \<and> (\<forall>a dev. map_of reg a = Some dev \<and> last_seen dev < th \<longrightarrow>
               map_of reg' a = None \<and> a \<notin> fst ` set (snapshot reg'))
         \<and> (\<forall>a dev. map_of reg a = Some dev \<and> \<not> last_seen dev < th \<longrightarrow>
               map_of reg' a = Some dev \<and> (a, dev) \<in> set (snapshot reg'))
         \<and> (\<forall>a. map_of reg a = None \<longrightarrow>
               map_of reg' a = None \<and> a \<notin> fst ` set (snapshot reg'))"
    using run look keys mem by (intro exI [of _ ?reg']) (simp split: option.splits)
next
  fix e
  assume "timeout_threshold timeout now = Inl e"
  then show "cleanup_stale_devices timeout now reg = (Some e, reg)"
    by (rule cleanup_raises)
next
  fix th
  show "timeout_threshold timeout now = Inr th \<longleftrightarrow>
           (\<exists>delta. timedelta_seconds timeout = Inr delta \<and> th = now - delta
              \<and> 0 \<le> th \<and> th \<le> datetime_max_us)"
    by (rule timeout_threshold_Inr)
next
  fix n
  assume "timeout = PyInt n"
  then show "timeout_threshold timeout now =
             (if - 86399999913600 \<le> n \<and> n \<le> 86399999999999
                 \<and> 0 \<le> now - n * 1000000 \<and> now - n * 1000000 \<le> 315537897599999999
              then Inr (now - n * 1000000) else Inl OverflowError)"
    by (simp add: timeout_threshold_int timedelta_min_us_def timedelta_max_us_def
        datetime_max_us_def)
qed

theorem cleanup_stale_devices_evicts_witness:
  "distinct (map fst
     [(''old'', \<lparr>address = ''old'', rssi = - 70, distance = Finite 5 (- 1), trend = ''green'',
        count = 1, last_seen = 63929303939999999, details = ''''\<rparr>),
      (''new'', \<lparr>address = ''new'', rssi = - 50, distance = Finite 1 (- 1), trend = ''red'',
        count = 3, last_seen = 63929303940000000, details = ''''\<rparr>)])
   \<and> timeout_threshold (PyInt 60) 63929304000000000 = Inr 63929303940000000
   \<and> cleanup_stale_devices (PyInt 60) 63929304000000000
     [(''old'', \<lparr>address = ''old'', rssi = - 70, distance = Finite 5 (- 1), trend = ''green'',
        count = 1, last_seen = 63929303939999999, details = ''''\<rparr>),
      (''new'', \<lparr>address = ''new'', rssi = - 50, distance = Finite 1 (- 1), trend = ''red'',
        count = 3, last_seen = 63929303940000000, details = ''''\<rparr>)]
   = (None, [(''new'', \<lparr>address = ''new'', rssi = - 50, distance = Finite 1 (- 1), trend = ''red'',
        count = 3, last_seen = 63929303940000000, details = ''''\<rparr>)])"
  using cleanup_stale_devices_evicts [of
     "[(''old'', \<lparr>address = ''old'', rssi = - 70, distance = Finite 5 (- 1), trend = ''green'',
        count = 1, last_seen = 63929303939999999, details = ''''\<rparr>),
      (''new'', \<lparr>address = ''new'', rssi = - 50, distance = Finite 1 (- 1), trend = ''red'',
        count = 3, last_seen = 63929303940000000, details = ''''\<rparr>)]" "PyInt 60"
     63929304000000000]
  by (simp add: timeout_threshold_int timedelta_min_us_def timedelta_max_us_def
      datetime_max_us_def)

section \<open>Properties of the WiFi side\<close>

subsection \<open>Band and channel\<close>

lemma band_post_init:
  "band (post_init now n) =
    (if 2400 \<le> frequency n \<and> frequency n \<le> 2500 then ''2.4GHz''
     else if 5000 \<le> frequency n \<and> frequency n \<le> 6000 then ''5GHz''
     else if 6000 < frequency n then ''6GHz'' else ''Unknown'')"
  by (simp add: post_init_def Let_def)

text \<open>
  C7. The band of a record is \<open>''2.4GHz''\<close> for a frequency from 2400 to 2500 MHz,
  \<open>''5GHz''\<close> from 5000 to 6000, \<open>''6GHz''\<close> for 6000 and more when the frequency is
  not in the 5 GHz range (so above 6000: at exactly 6000 the 5 GHz case, which is
  tested first, applies), and \<open>''Unknown''\<close> otherwise, zero included. The channel
  derived from a frequency from 2412 to 2484 is \<open>(f - 2412) div 5 + 1\<close>, except 14 at
  2484; from 5000 to 6000 it is the entry of the fixed table, whose 25 channels sit at
  5000 + 5 * channel MHz. 2437 gives 2.4GHz and channel 6, 5180 gives 5GHz and channel
  36, 2484 gives channel 14.
\<close>

theorem band_and_channel_of_frequency:
  "(2400 \<le> frequency n \<and> frequency n \<le> 2500 \<longrightarrow> band (post_init now n) = ''2.4GHz'')
   \<and> (5000 \<le> frequency n \<and> frequency n \<le> 6000 \<longrightarrow> band (post_init now n) = ''5GHz'')
   \<and> (6000 \<le> frequency n \<and> \<not> (5000 \<le> frequency n \<and> frequency n \<le> 6000)
         \<longrightarrow> band (post_init now n) = ''6GHz'')
   \<and> (frequency n < 2400 \<or> (2500 < frequency n \<and> frequency n < 5000)
         \<longrightarrow> band (post_init now n) = ''Unknown'')
   \<and> (frequency n = 0 \<longrightarrow> band (post_init now n) = ''Unknown'')
   \<and> (2412 \<le> f \<and> f \<le> 2484 \<and> f \<noteq> 2484
         \<longrightarrow> frequency_to_channel f = Some ((f - 2412) div 5 + 1))
   \<and> frequency_to_channel 2484 = Some 14
   \<and> (5000 \<le> f \<and> f \<le> 6000 \<longrightarrow> frequency_to_channel f = map_of freq_to_chan_5g f)
   \<and> map snd freq_to_chan_5g =
        [36, 40, 44, 48, 52, 56, 60, 64, 100, 104, 108, 112, 116, 120, 124, 128,
         132, 136, 140, 144, 149, 153, 157, 161, 165]
   \<and> list_all (\<lambda>(fr, ch). fr = 5000 + 5 * ch) freq_to_chan_5g
   \<and> (frequency n = 2437 \<longrightarrow> band (post_init now n) = ''2.4GHz'')
   \<and> frequency_to_channel 2437 = Some 6
   \<and> (frequency n = 5180 \<longrightarrow> band (post_init now n) = ''5GHz'')
   \<and> frequency_to_channel 5180 = Some 36"
proof -
  have c1: "2412 \<le> f \<and> f \<le> 2484 \<and> f \<noteq> 2484
         \<longrightarrow> frequency_to_channel f = Some ((f - 2412) div 5 + 1)"
    by (simp add: frequency_to_channel_def)
  have c2: "frequency_to_channel 2484 = Some 14"
    by (simp add: frequency_to_channel_def)
  have c3: "5000 \<le> f \<and> f \<le> 6000 \<longrightarrow> frequency_to_channel f = map_of freq_to_chan_5g f"
    by (simp add: frequency_to_channel_def)
  have t1: "map snd freq_to_chan_5g =
        [36, 40, 44, 48, 52, 56, 60, 64, 100, 104, 108, 112, 116, 120, 124, 128,
         132, 136, 140, 144, 149, 153, 157, 161, 165]"
    by (simp add: freq_to_chan_5g_def)
  have t2: "list_all (\<lambda>(fr, ch). fr = 5000 + 5 * ch) freq_to_chan_5g"
    by (simp add: freq_to_chan_5g_def)
  have c4: "frequency_to_channel 2437 = Some 6"
    by (simp add: frequency_to_channel_def)
  have c5: "frequency_to_channel 5180 = Some 36"
    by (simp add: frequency_to_channel_def freq_to_chan_5g_def)
  have b1: "2400 \<le> frequency n \<and> frequency n \<le> 2500 \<longrightarrow> band (post_init now n) = ''2.4GHz''"
    by (simp add: band_post_init)
  have b2: "5000 \<le> frequency n \<and> frequency n \<le> 6000 \<longrightarrow> band (post_init now n) = ''5GHz''"
    by (simp add: band_post_init)
  have b3: "6000 \<le> frequency n \<and> \<not> (5000 \<le> frequency n \<and> frequency n \<le> 6000)
         \<longrightarrow> band (post_init now n) = ''6GHz''"
    by (simp add: band_post_init)
  have b4: "frequency n < 2400 \<or> (2500 < frequency n \<and> frequency n < 5000)
         \<longrightarrow> band (post_init now n) = ''Unknown''"
    by (auto simp add: band_post_init)
  have b5: "frequency n = 0 \<longrightarrow> band (post_init now n) = ''Unknown''"
    by (simp add: band_post_init)
  have b6: "frequency n = 2437 \<longrightarrow> band (post_init now n) = ''2.4GHz''"
    by (simp add: band_post_init)
  have b7: "frequency n = 5180 \<longrightarrow> band (post_init now n) = ''5GHz''"
    by (simp add: band_post_init)
  show ?thesis
    using b1 b2 b3 b4 b5 c1 c2 c3 t1 t2 b6 c4 b7 c5 by blast
qed

theorem band_and_channel_of_frequency_witness:
  "band (post_init ''t''
      \<lparr>ssid = ''Home'', security = ''WPA2'', signal = 75, frequency = 5180, band = ''Unknown'',
       channel = None, bssid = None, net_rssi = None, timestamp = None\<rparr>) = ''5GHz''
   \<and> frequency_to_channel 5180 = Some 36
   \<and> frequency_to_channel 2437 = Some 6"
  using band_and_channel_of_frequency [of
      "\<lparr>ssid = ''Home'', security = ''WPA2'', signal = 75, frequency = 5180, band = ''Unknown'',
        channel = None, bssid = None, net_rssi = None, timestamp = None\<rparr>" "''t''" 5180]
  by (simp add: freq_to_chan_5g_def)

subsection \<open>The network registry\<close>

lemma existing_networks_fold:
  "fold (\<lambda>network existing. insert (network_identifier network) existing) ns A
   = A \<union> network_identifier ` set ns"
  by (induction ns arbitrary: A) auto

lemma existing_networks_set:
  "existing_networks ns = network_identifier ` set ns"
  by (simp add: existing_networks_def existing_networks_fold)

lemma add_loop_distinct:
  "ex = network_identifier ` set disc \<Longrightarrow> distinct (map network_identifier disc) \<Longrightarrow>
   distinct (map network_identifier (fst (add_loop new (disc, ex))))"
proof (induction new arbitrary: disc ex)
  case Nil
  then show ?case by simp
next
  case (Cons n new)
  show ?case
  proof (cases "network_identifier n \<in> ex")
    case True
    then show ?thesis using Cons.IH [OF Cons.prems] by simp
  next
    case False
    have 1: "insert (network_identifier n) ex = network_identifier ` set (disc @ [n])"
      using Cons.prems(1) by simp
    have 2: "distinct (map network_identifier (disc @ [n]))"
      using Cons.prems False by simp
    show ?thesis using False Cons.IH [OF 1 2] by simp
  qed
qed

lemma add_loop_prefix:
  "prefix disc (fst (add_loop new (disc, ex)))"
proof (induction new arbitrary: disc ex)
  case Nil
  then show ?case by simp
next
  case (Cons n new)
  show ?case
  proof (cases "network_identifier n \<in> ex")
    case True
    then show ?thesis using Cons.IH [of disc ex] by simp
  next
    case False
    have "prefix disc (disc @ [n])" by simp
    also have "prefix (disc @ [n]) (fst (add_loop new (disc @ [n], insert (network_identifier n) ex)))"
      by (rule Cons.IH)
    finally show ?thesis using False by simp
  qed
qed

lemma add_loop_subseq:
  "subseq (fst (add_loop new (disc, ex))) (disc @ new)"
proof (induction new arbitrary: disc ex)
  case Nil
  then show ?case by simp
next
  case (Cons n new)
  show ?case
  proof (cases "network_identifier n \<in> ex")
    case True
    have "subseq (fst (add_loop new (disc, ex))) (disc @ new)" by (rule Cons.IH)
    also have "subseq (disc @ new) (disc @ n # new)"
      by (intro list_emb_append_mono) auto
    finally show ?thesis using True by simp
  next
    case False
    then show ?thesis
      using Cons.IH [of "disc @ [n]" "insert (network_identifier n) ex"] by simp
  qed
qed

lemma find_key_in:
  "k \<in> network_identifier ` set xs \<Longrightarrow>
   find (\<lambda>n. network_identifier n = k) (xs @ ys) = find (\<lambda>n. network_identifier n = k) xs"
  by (induction xs) auto

lemma add_loop_find:
  "ex = network_identifier ` set disc \<Longrightarrow>
   find (\<lambda>n. network_identifier n = k) (fst (add_loop new (disc, ex)))
   = find (\<lambda>n. network_identifier n = k) (disc @ new)"
proof (induction new arbitrary: disc ex)
  case Nil
  then show ?case by simp
next
  case (Cons n new)
  show ?case
  proof (cases "network_identifier n \<in> ex")
    case False
    then show ?thesis
      using Cons.IH [of "insert (network_identifier n) ex" "disc @ [n]"] Cons.prems by simp
  next
    case True
    have "find (\<lambda>n. network_identifier n = k) (disc @ n # new)
          = find (\<lambda>n. network_identifier n = k) (disc @ new)"
    proof (cases "k = network_identifier n")
      case True
      with \<open>network_identifier n \<in> ex\<close> Cons.prems show ?thesis
        by (simp add: find_key_in)
    next
      case False
      then show ?thesis by (induction disc) auto
    qed
    then show ?thesis
      using True Cons.IH [of ex disc] Cons.prems by simp
  qed
qed

lemma add_unique_distinct:
  "distinct (map network_identifier disc) \<Longrightarrow>
   distinct (map network_identifier (add_unique_networks new disc))"
  by (simp add: add_unique_networks_def add_loop_distinct existing_networks_set)

lemma fold_add_unique_distinct:
  "distinct (map network_identifier disc) \<Longrightarrow>
   distinct (map network_identifier (fold add_unique_networks batches disc))"
  by (induction batches arbitrary: disc) (auto simp: add_unique_distinct)

lemma fold_add_unique_subseq:
  "subseq (fold add_unique_networks batches disc) (disc @ concat batches)"
proof (induction batches arbitrary: disc)
  case Nil
  then show ?case by simp
next
  case (Cons b batches)
  have "subseq (add_unique_networks b disc @ concat batches) ((disc @ b) @ concat batches)"
    unfolding add_unique_networks_def
    by (intro list_emb_append_mono add_loop_subseq subseq_order.order_refl)
  then show ?case
    using Cons.IH [of "add_unique_networks b disc"]
    by (auto intro: subseq_order.trans)
qed

lemma find_app:
  "find P (xs @ ys) = (case find P xs of None \<Rightarrow> find P ys | Some x \<Rightarrow> Some x)"
  by (induction xs) auto

lemma fold_add_unique_find:
  "find (\<lambda>n. network_identifier n = k) (fold add_unique_networks batches disc)
   = find (\<lambda>n. network_identifier n = k) (disc @ concat batches)"
proof (induction batches arbitrary: disc)
  case Nil
  then show ?case by simp
next
  case (Cons b batches)
  have "find (\<lambda>n. network_identifier n = k) (add_unique_networks b disc)
        = find (\<lambda>n. network_identifier n = k) (disc @ b)"
    by (simp add: add_unique_networks_def add_loop_find existing_networks_set)
  then show ?case
    using Cons.IH [of "add_unique_networks b disc"]
    by (simp add: find_app split: option.splits)
qed

text \<open>
  C8. After any sequence of \<open>_add_unique_networks\<close> calls from the empty registry,
  the stored records have pairwise distinct \<open>ssid|bssid\<close> identifiers (with
  \<open>no_bssid\<close> for an absent BSSID); the stored records are a subsequence of the
  records fed, in the order fed, and for every identifier the stored record is the
  first one fed with it: a later record with the same identifier, in a later call or
  in the same batch, is dropped and nothing is merged. One call keeps the registry it
  found as a prefix. Feeding two records with the same identifier in two calls leaves
  exactly the first one.
\<close>

theorem add_unique_networks_dedup:
  "distinct (map network_identifier (fold add_unique_networks batches []))
   \<and> subseq (fold add_unique_networks batches []) (concat batches)
   \<and> find (\<lambda>x. network_identifier x = k) (fold add_unique_networks batches [])
       = find (\<lambda>x. network_identifier x = k) (concat batches)
   \<and> (distinct (map network_identifier reg) \<longrightarrow>
         distinct (map network_identifier (add_unique_networks new reg)))
   \<and> prefix reg (add_unique_networks new reg)
   \<and> subseq (add_unique_networks new reg) (reg @ new)
   \<and> find (\<lambda>x. network_identifier x = k) (add_unique_networks new reg)
       = find (\<lambda>x. network_identifier x = k) (reg @ new)
   \<and> (network_identifier m = network_identifier n \<longrightarrow>
         add_unique_networks [m] (add_unique_networks [n] []) = [n])
   \<and> (bssid n = None \<longrightarrow> network_identifier n = ssid n @ ''|no_bssid'')
   \<and> (bssid n = Some b \<and> b \<noteq> [] \<longrightarrow> network_identifier n = ssid n @ ''|'' @ b)"
proof -
  have 1: "distinct (map network_identifier (fold add_unique_networks batches []))"
    by (rule fold_add_unique_distinct) simp
  have 2: "subseq (fold add_unique_networks batches []) (concat batches)"
    using fold_add_unique_subseq [of batches "[]"] by simp
  have 3: "find (\<lambda>x. network_identifier x = k) (fold add_unique_networks batches [])
       = find (\<lambda>x. network_identifier x = k) (concat batches)"
    using fold_add_unique_find [of k batches "[]"] by simp
  have 4: "distinct (map network_identifier reg) \<longrightarrow>
         distinct (map network_identifier (add_unique_networks new reg))"
    by (simp add: add_unique_distinct)
  have 5: "prefix reg (add_unique_networks new reg)"
    by (simp add: add_unique_networks_def add_loop_prefix)
  have 6: "subseq (add_unique_networks new reg) (reg @ new)"
    by (simp add: add_unique_networks_def add_loop_subseq)
  have 7: "find (\<lambda>x. network_identifier x = k) (add_unique_networks new reg)
       = find (\<lambda>x. network_identifier x = k) (reg @ new)"
    by (simp add: add_unique_networks_def add_loop_find existing_networks_set)
  have 8: "network_identifier m = network_identifier n \<longrightarrow>
         add_unique_networks [m] (add_unique_networks [n] []) = [n]"
    by (simp add: add_unique_networks_def existing_networks_def)
  have 9: "bssid n = None \<longrightarrow> network_identifier n = ssid n @ ''|no_bssid''"
    by (simp add: network_identifier_def)
  have 10: "bssid n = Some b \<and> b \<noteq> [] \<longrightarrow> network_identifier n = ssid n @ ''|'' @ b"
    by (simp add: network_identifier_def)
  show ?thesis using 1 2 3 4 5 6 7 8 9 10 by blast
qed

theorem add_unique_networks_dedup_witness:
  "network_identifier
      \<lparr>ssid = ''Home'', security = ''WPA2'', signal = 40, frequency = 5180, band = ''5GHz'',
       channel = Some 36, bssid = Some ''AA:BB:CC:DD:EE:FF'', net_rssi = Some (-70),
       timestamp = Some ''t2''\<rparr>
    = network_identifier
      \<lparr>ssid = ''Home'', security = ''WPA2'', signal = 75, frequency = 5180, band = ''5GHz'',
       channel = Some 36, bssid = Some ''AA:BB:CC:DD:EE:FF'', net_rssi = None,
       timestamp = Some ''t1''\<rparr>
   \<and> add_unique_networks
      [\<lparr>ssid = ''Home'', security = ''WPA2'', signal = 40, frequency = 5180, band = ''5GHz'',
        channel = Some 36, bssid = Some ''AA:BB:CC:DD:EE:FF'', net_rssi = Some (-70),
        timestamp = Some ''t2''\<rparr>]
      (add_unique_networks
        [\<lparr>ssid = ''Home'', security = ''WPA2'', signal = 75, frequency = 5180, band = ''5GHz'',
          channel = Some 36, bssid = Some ''AA:BB:CC:DD:EE:FF'', net_rssi = None,
          timestamp = Some ''t1''\<rparr>] [])
    = [\<lparr>ssid = ''Home'', security = ''WPA2'', signal = 75, frequency = 5180, band = ''5GHz'',
        channel = Some 36, bssid = Some ''AA:BB:CC:DD:EE:FF'', net_rssi = None,
        timestamp = Some ''t1''\<rparr>]"
  using add_unique_networks_dedup [of "[]" "''''" "[]" "[]"
      "\<lparr>ssid = ''Home'', security = ''WPA2'', signal = 40, frequency = 5180, band = ''5GHz'',
        channel = Some 36, bssid = Some ''AA:BB:CC:DD:EE:FF'', net_rssi = Some (-70),
        timestamp = Some ''t2''\<rparr>"
      "\<lparr>ssid = ''Home'', security = ''WPA2'', signal = 75, frequency = 5180, band = ''5GHz'',
          channel = Some 36, bssid = Some ''AA:BB:CC:DD:EE:FF'', net_rssi = None,
          timestamp = Some ''t1''\<rparr>"]
  by (simp add: network_identifier_def)

subsection \<open>The frequency field \<open>1.0e999\<close>\<close>

lemma pow10_999_large: "(2::int) ^ 1024 \<le> 10 * 10 ^ 998"
proof -
  have "(2::int) ^ 1024 \<le> 2 ^ (29 * 111)"
    by (rule power_increasing) simp_all
  also have "\<dots> = ((2::int) ^ 29) ^ 111"
    by (rule power_mult)
  also have "\<dots> \<le> ((10::int) ^ 9) ^ 111"
    by (rule power_mono) simp_all
  also have "\<dots> = (10::int) ^ (9 * 111)"
    by (rule power_mult [symmetric])
  also have "9 * 111 = Suc 998"
    by simp
  also have "(10::int) ^ Suc 998 = 10 * 10 ^ 998"
    by (rule power_Suc)
  finally show ?thesis .
qed

lemma float_1e999: "py_float ''1.0e999'' = Inr PosInf"
proof -
  have "py_float ''1.0e999'' = Inr (round_double False (10 * 10 ^ 998) 1)"
    by (simp add: py_float_def Let_def split_sign_def parse_decimal_def parse_exponent_def
        dec_val_def digit_val_def is_ascii_digit_def num_space_def lower_char_def and_then_def
        del: power_numeral)
  moreover have "round_double False (10 * 10 ^ 998) 1 = PosInf"
    using round_double_overflow [of 1 "10 * 10 ^ 998" False] pow10_999_large
    by (simp del: power_numeral)
  ultimately show ?thesis by (simp del: power_numeral)
qed

lemma freq_1e999: "parse_frequency ''1.0e999'' = Inl OverflowError"
  by (simp add: parse_frequency_def Let_def py_strip_def py_isspace_def float_1e999
      and_then_def float_mul_def py_int_of_float_def)

subsection \<open>What a parsed line consists of\<close>


lemma parse_SomeD:
  assumes "parse_nmcli_line_robust line = Inr (Some d)"
  shows "8 \<le> length (py_split (CHR '':'') line)
    \<and> f_ssid d = py_strip (py_split (CHR '':'') line ! 0)
    \<and> f_security d = py_strip (py_split (CHR '':'') line ! 1)
    \<and> (if py_isdigit (py_strip (py_split (CHR '':'') line ! 2))
        then py_int (py_strip (py_split (CHR '':'') line ! 2)) = Inr (f_signal d)
        else f_signal d = 0)
    \<and> parse_frequency (py_strip (py_split (CHR '':'') line ! 3)) = Inr (f_frequency d)
    \<and> f_bssid d = validate_bssid (py_join '':'' (take 6 (drop 4 (py_split (CHR '':'') line))))
    \<and> parse_channel (if 10 < length (py_split (CHR '':'') line)
                       then py_split (CHR '':'') line ! 10 else [])
          (f_frequency d) = Inr (f_channel d)"
proof -
  let ?parts = "py_split (CHR '':'') line"
  have len: "8 \<le> length ?parts"
    using assms by (auto simp: parse_nmcli_line_robust_def Let_def split: if_splits)
  show ?thesis
    using assms len
    by (auto simp: parse_nmcli_line_robust_def Let_def list_at_def and_then_def
             split: if_splits sum.splits pyerr.splits)
qed


lemma isdigit_char_not_space: "py_isdigit_char c \<Longrightarrow> \<not> num_space c"
  by (auto simp: py_isdigit_char_def is_ascii_digit_def num_space_def)

lemma isdigit_char_not_sign: "py_isdigit_char c \<Longrightarrow> c \<noteq> CHR ''+'' \<and> c \<noteq> CHR ''-'' \<and> c \<noteq> CHR ''_''"
  by (auto simp: py_isdigit_char_def is_ascii_digit_def)

lemma digit_val_nonneg: "is_ascii_digit c \<Longrightarrow> 0 \<le> digit_val c"
  by (auto simp: is_ascii_digit_def digit_val_def)

lemma foldl_digits_nonneg:
  "list_all is_ascii_digit ds \<Longrightarrow> 0 \<le> acc \<Longrightarrow>
   0 \<le> foldl (\<lambda>acc c. 10 * acc + digit_val c) acc ds"
proof (induction ds arbitrary: acc)
  case Nil
  then show ?case by simp
next
  case (Cons c ds)
  then have "0 \<le> 10 * acc + digit_val c"
    using digit_val_nonneg [of c] by simp
  with Cons show ?case by simp
qed

lemma dec_val_nonneg: "list_all is_ascii_digit ds \<Longrightarrow> 0 \<le> dec_val ds"
  by (simp add: dec_val_def foldl_digits_nonneg)

lemma py_int_isdigit:
  assumes "py_isdigit s" and "py_int s = Inr v"
  shows "list_all is_ascii_digit s \<and> v = dec_val s \<and> 0 \<le> v"
proof -
  let ?P = "\<lambda>c. is_ascii_digit c \<or> c = CHR ''_''"
  from assms(1) obtain c cs where s: "s = c # cs" and all: "list_all py_isdigit_char s"
    by (cases s) (auto simp: py_isdigit_def)
  then have c: "py_isdigit_char c" by simp
  have drop: "dropWhile num_space s = s"
    using s isdigit_char_not_space [OF c] by simp
  have sign: "split_sign s = (1, s)"
    using s isdigit_char_not_sign [OF c] by (simp add: split_sign_def)
  have rest: "dropWhile num_space (dropWhile ?P s) = []"
    using assms(2) drop sign by (simp add: py_int_def Let_def split: if_splits)
  have "dropWhile ?P s = []"
  proof (rule ccontr)
    assume ne: "dropWhile ?P s \<noteq> []"
    then have "hd (dropWhile ?P s) \<in> set s"
      by (meson hd_in_set set_dropWhileD)
    then have "py_isdigit_char (hd (dropWhile ?P s))"
      using all by (simp add: list_all_iff)
    then have "\<not> num_space (hd (dropWhile ?P s))"
      by (rule isdigit_char_not_space)
    then have "dropWhile num_space (dropWhile ?P s) \<noteq> []"
      using ne by (cases "dropWhile ?P s") auto
    with rest show False by simp
  qed
  then have allP: "\<forall>x\<in>set s. ?P x"
    by (simp add: dropWhile_eq_Nil_conv)
  have dig: "list_all is_ascii_digit s"
    unfolding list_all_iff
  proof
    fix x assume x: "x \<in> set s"
    then have "py_isdigit_char x" using all by (simp add: list_all_iff)
    then have "x \<noteq> CHR ''_''" using isdigit_char_not_sign by blast
    with allP x show "is_ascii_digit x" by blast
  qed
  have take: "takeWhile ?P s = s"
    using allP by (simp add: takeWhile_eq_all_conv)
  have filt: "filter is_ascii_digit s = s"
    using dig by (simp add: list_all_iff)
  have "v = dec_val (filter is_ascii_digit (takeWhile ?P s))"
    using assms(2) drop sign by (simp add: py_int_def Let_def split: if_splits)
  then have "v = dec_val s"
    by (simp only: take filt)
  then show ?thesis using dig dec_val_nonneg by simp
qed


lemma py_strip_last:
  "py_strip s \<noteq> [] \<Longrightarrow> \<not> py_isspace (last (py_strip s))"
proof -
  assume ne: "py_strip s \<noteq> []"
  let ?t = "dropWhile py_isspace (rev (dropWhile py_isspace s))"
  have t: "?t \<noteq> []" using ne by (simp add: py_strip_def)
  have "last (py_strip s) = hd ?t"
    using t by (simp add: py_strip_def last_rev)
  moreover have "\<not> py_isspace (hd ?t)"
    using t by (rule hd_dropWhile)
  ultimately show ?thesis by simp
qed

lemma filter_dropWhile_disjoint:
  "(\<And>x. P x \<Longrightarrow> \<not> Q x) \<Longrightarrow> filter Q (dropWhile P xs) = filter Q xs"
  by (induction xs) auto

lemma filter_py_strip:
  assumes "\<And>x. py_isspace x \<Longrightarrow> \<not> Q x"
  shows "filter Q (py_strip s) = filter Q s"
proof -
  have "filter Q (py_strip s) = rev (filter Q (dropWhile py_isspace (rev (dropWhile py_isspace s))))"
    by (simp add: py_strip_def rev_filter)
  also have "\<dots> = rev (filter Q (rev (dropWhile py_isspace s)))"
    using assms by (simp add: filter_dropWhile_disjoint)
  also have "\<dots> = filter Q (dropWhile py_isspace s)"
    by (simp add: rev_filter)
  also have "\<dots> = filter Q s"
    using assms by (simp add: filter_dropWhile_disjoint)
  finally show ?thesis .
qed


lemma py_split_nonempty: "py_split c s \<noteq> []"
  by (induction s) (auto split: list.splits)

lemma py_split_no_sep: "p \<in> set (py_split c s) \<Longrightarrow> c \<notin> set p"
proof (induction s arbitrary: p)
  case Nil
  then show ?case by simp
next
  case (Cons x xs)
  show ?case
  proof (cases "x = c")
    case True
    with Cons show ?thesis by auto
  next
    case False
    obtain q qs where q: "py_split c xs = q # qs"
      using py_split_nonempty [of c xs] by (cases "py_split c xs") auto
    with Cons.prems False have "p = x # q \<or> p \<in> set qs" by simp
    then show ?thesis
      using Cons.IH [of q] Cons.IH [of p] q False by auto
  qed
qed

lemma py_replace_single: "py_replace [c] [] s = filter (\<lambda>x. x \<noteq> c) s"
  by (induction s) auto

lemma count_py_join:
  "(\<And>p. p \<in> set ps \<Longrightarrow> c \<notin> set p) \<Longrightarrow> ps \<noteq> [] \<Longrightarrow>
   length (filter (\<lambda>x. x = c) (py_join [c] ps)) = length ps - 1"
proof (induction "[c]" ps rule: py_join.induct)
  case 1
  then show ?case by simp
next
  case (2 p)
  then have "filter (\<lambda>x. x = c) p = []" by (auto simp: filter_empty_conv)
  then show ?case by simp
next
  case (3 p q ps)
  have "filter (\<lambda>x. x = c) p = []" using 3(2) by (auto simp: filter_empty_conv)
  moreover have "length (filter (\<lambda>x. x = c) (py_join [c] (q # ps))) = length (q # ps) - 1"
    using 3 by simp
  ultimately show ?case by simp
qed

subsection \<open>The validated BSSID\<close>

lemma upper_char_hex_cases:
  "upper_char (CHR ''0'') = CHR ''0''" "upper_char (CHR ''1'') = CHR ''1''"
  "upper_char (CHR ''2'') = CHR ''2''" "upper_char (CHR ''3'') = CHR ''3''"
  "upper_char (CHR ''4'') = CHR ''4''" "upper_char (CHR ''5'') = CHR ''5''"
  "upper_char (CHR ''6'') = CHR ''6''" "upper_char (CHR ''7'') = CHR ''7''"
  "upper_char (CHR ''8'') = CHR ''8''" "upper_char (CHR ''9'') = CHR ''9''"
  "upper_char (CHR ''A'') = CHR ''A''" "upper_char (CHR ''B'') = CHR ''B''"
  "upper_char (CHR ''C'') = CHR ''C''" "upper_char (CHR ''D'') = CHR ''D''"
  "upper_char (CHR ''E'') = CHR ''E''" "upper_char (CHR ''F'') = CHR ''F''"
  "upper_char (CHR ''a'') = CHR ''A''" "upper_char (CHR ''b'') = CHR ''B''"
  "upper_char (CHR ''c'') = CHR ''C''" "upper_char (CHR ''d'') = CHR ''D''"
  "upper_char (CHR ''e'') = CHR ''E''" "upper_char (CHR ''f'') = CHR ''F''"
  "upper_char (CHR '':'') = CHR '':''" "upper_char (CHR ''-'') = CHR ''-''"
  by (simp_all add: upper_char_def)

lemma upper_hex: "is_hex c \<Longrightarrow> is_upper_hex (upper_char c)"
  unfolding is_hex_def is_upper_hex_def
  by (auto simp: upper_char_hex_cases)

lemma hex_not_colon: "is_hex c \<Longrightarrow> c \<noteq> CHR '':''"
  by (auto simp: is_hex_def)

lemma octet_groups_0: "octet_groups 0 s = (\<exists>a b. s = [a, b] \<and> is_hex a \<and> is_hex b)"
  by (simp split: list.splits)

lemma octet_groups_Suc:
  "octet_groups (Suc n) s =
    (\<exists>a b c rest. s = a # b # c # rest \<and> is_hex a \<and> is_hex b
        \<and> (c = CHR '':'' \<or> c = CHR ''-'') \<and> octet_groups n rest)"
  by (simp split: list.splits)

lemma py_upper_Cons: "py_upper (x # xs) = upper_char x # py_upper xs"
  by (simp add: py_upper_def)

lemma py_upper_Nil: "py_upper [] = []"
  by (simp add: py_upper_def)

lemma octet_groups_upper:
  "octet_groups n s \<Longrightarrow> mac_shape (\<lambda>c. c = CHR '':'' \<or> c = CHR ''-'') n (py_upper s)"
proof (induction n arbitrary: s)
  case 0
  then obtain a b where "s = [a, b]" "is_hex a" "is_hex b"
    unfolding octet_groups_0 by blast
  then show ?case
    by (simp add: py_upper_Cons py_upper_Nil upper_hex)
next
  case (Suc n)
  then obtain a b c rest where s: "s = a # b # c # rest"
    and h: "is_hex a" "is_hex b" and c: "c = CHR '':'' \<or> c = CHR ''-''"
    and r: "octet_groups n rest"
    unfolding octet_groups_Suc by blast
  have ih: "mac_shape (\<lambda>c. c = CHR '':'' \<or> c = CHR ''-'') n (py_upper rest)"
    by (rule Suc.IH [OF r])
  have "upper_char c = c" using c by (auto simp: upper_char_hex_cases)
  then show ?case
    using s h c ih by (simp add: py_upper_Cons upper_hex)
qed

lemma octet_groups_colons:
  "octet_groups n s \<Longrightarrow>
   length (filter (\<lambda>x. x = CHR '':'') s) \<le> n
   \<and> (length (filter (\<lambda>x. x = CHR '':'') s) = n \<longrightarrow>
        mac_shape (\<lambda>c. c = CHR '':'') n (py_upper s))"
proof (induction n arbitrary: s)
  case 0
  then obtain a b where "s = [a, b]" "is_hex a" "is_hex b"
    unfolding octet_groups_0 by blast
  then show ?case
    by (simp add: py_upper_Cons py_upper_Nil upper_hex hex_not_colon)
next
  case (Suc n)
  then obtain a b c rest where s: "s = a # b # c # rest"
    and h: "is_hex a" "is_hex b" and c: "c = CHR '':'' \<or> c = CHR ''-''"
    and r: "octet_groups n rest"
    unfolding octet_groups_Suc by blast
  have ih: "length (filter (\<lambda>x. x = CHR '':'') rest) \<le> n"
    "length (filter (\<lambda>x. x = CHR '':'') rest) = n \<Longrightarrow>
        mac_shape (\<lambda>c. c = CHR '':'') n (py_upper rest)"
    using Suc.IH [OF r] by simp_all
  have na: "a \<noteq> CHR '':''" "b \<noteq> CHR '':''" using h hex_not_colon by blast+
  show ?case
  proof (cases "c = CHR '':''")
    case True
    then have cnt: "length (filter (\<lambda>x. x = CHR '':'') s)
        = Suc (length (filter (\<lambda>x. x = CHR '':'') rest))"
      using s na by simp
    show ?thesis
      using cnt ih s h True by (simp add: py_upper_Cons upper_hex upper_char_hex_cases)
  next
    case False
    then have cnt: "length (filter (\<lambda>x. x = CHR '':'') s)
        = length (filter (\<lambda>x. x = CHR '':'') rest)"
      using s na by simp
    show ?thesis
      using cnt ih(1) by simp
  qed
qed

lemma mac_pattern_strip: "mac_pattern (py_strip s) = octet_groups 5 (py_strip s)"
proof (cases "py_strip s = []")
  case True
  then show ?thesis by (simp add: mac_pattern_def before_final_newline_def)
next
  case False
  then have "\<not> py_isspace (last (py_strip s))" by (rule py_strip_last)
  then have "last (py_strip s) \<noteq> CHR 0x0A" by (auto simp: py_isspace_def)
  then show ?thesis by (simp add: mac_pattern_def before_final_newline_def)
qed

lemma validate_bssid_Some:
  "validate_bssid raw = Some b \<longleftrightarrow>
     raw \<noteq> [] \<and> octet_groups 5 (py_strip (py_replace [CHR 0x5C] [] raw))
     \<and> b = py_upper (py_strip (py_replace [CHR 0x5C] [] raw))"
  unfolding validate_bssid_def Let_def mac_pattern_strip
  by (cases "raw = []") auto

lemma validate_bssid_separated:
  "validate_bssid raw = Some b \<Longrightarrow> separated_mac b"
  unfolding validate_bssid_Some separated_mac_def
  using octet_groups_upper by blast

lemma colons_cleaned:
  "filter (\<lambda>x. x = CHR '':'') (py_strip (py_replace [CHR 0x5C] [] raw))
   = filter (\<lambda>x. x = CHR '':'') raw"
proof -
  have "filter (\<lambda>x. x = CHR '':'') (py_strip (py_replace [CHR 0x5C] [] raw))
        = filter (\<lambda>x. x = CHR '':'') (py_replace [CHR 0x5C] [] raw)"
    by (rule filter_py_strip) (auto simp: py_isspace_def)
  also have "\<dots> = filter (\<lambda>x. x = CHR '':'') (filter (\<lambda>x. x \<noteq> CHR 0x5C) raw)"
    by (simp only: py_replace_single)
  also have "\<dots> = filter (\<lambda>x. x = CHR '':'') raw"
    by (induction raw) auto
  finally show ?thesis .
qed

lemma validate_bssid_canonical:
  assumes "validate_bssid raw = Some b"
    and "length (filter (\<lambda>x. x = CHR '':'') raw) = 5"
  shows "canonical_mac b"
proof -
  let ?c = "py_strip (py_replace [CHR 0x5C] [] raw)"
  have og: "octet_groups 5 ?c" and b: "b = py_upper ?c"
    using assms(1) unfolding validate_bssid_Some by blast+
  have "length (filter (\<lambda>x. x = CHR '':'') ?c) = 5"
    using assms(2) by (simp only: colons_cleaned)
  then have "mac_shape (\<lambda>c. c = CHR '':'') 5 (py_upper ?c)"
    using octet_groups_colons [OF og] by blast
  then show ?thesis
    unfolding canonical_mac_def b .
qed

lemma bssid_raw_colons:
  assumes "10 \<le> length (py_split (CHR '':'') line)"
  shows "length (filter (\<lambda>x. x = CHR '':'')
           (py_join '':'' (take 6 (drop 4 (py_split (CHR '':'') line))))) = 5"
proof -
  let ?ps = "take 6 (drop 4 (py_split (CHR '':'') line))"
  have len: "length ?ps = 6" using assms by simp
  then have ne: "?ps \<noteq> []" by auto
  have nosep: "CHR '':'' \<notin> set p" if "p \<in> set ?ps" for p
  proof -
    from that have "p \<in> set (py_split (CHR '':'') line)"
      by (meson in_set_dropD in_set_takeD)
    then show ?thesis by (rule py_split_no_sep)
  qed
  have "length (filter (\<lambda>x. x = CHR '':'') (py_join [CHR '':''] ?ps)) = length ?ps - 1"
    by (rule count_py_join [OF nosep ne])
  then show ?thesis using len by simp
qed

subsection \<open>Example lines\<close>

lemmas string_eval = py_strip_def py_isspace_def py_isdigit_def py_isdigit_char_def
  is_ascii_digit_def list_at_def and_then_def Let_def

lemmas number_eval = py_int_def split_sign_def num_space_def dec_val_def digit_val_def
  int_max_str_digits_def parse_frequency_def parse_channel_def frequency_to_channel_def

lemma five_groups:
  "octet_groups 5 s = octet_groups (Suc (Suc (Suc (Suc (Suc 0))))) s"
  by (simp add: eval_nat_numeral)

lemma five_shapes:
  "mac_shape sep 5 s = mac_shape sep (Suc (Suc (Suc (Suc (Suc 0))))) s"
  by (simp add: eval_nat_numeral)

lemmas bssid_eval = validate_bssid_def mac_pattern_def partial_pattern_def
  before_final_newline_def is_hex_def py_upper_def upper_char_def five_groups

lemmas parser_eval = parse_nmcli_line_robust_def string_eval number_eval bssid_eval

lemma parse_example:
  "parse_nmcli_line_robust ''MyNet:WPA2:75:2437:AA:BB:CC:DD:EE:FF:6'' =
    Inr (Some \<lparr>f_ssid = ''MyNet'', f_security = ''WPA2'', f_signal = 75, f_frequency = 2437,
               f_bssid = Some ''AA:BB:CC:DD:EE:FF'', f_channel = Some 6\<rparr>)"
  by (simp add: parser_eval)


lemma parse_hyphen_example:
  "parse_nmcli_line_robust ''X:WPA2:75:2437:AA-BB-CC:DD:EE:FF'' =
    Inr (Some \<lparr>f_ssid = ''X'', f_security = ''WPA2'', f_signal = 75, f_frequency = 2437,
               f_bssid = Some ''AA-BB-CC:DD:EE:FF'', f_channel = Some 6\<rparr>)"
  by (simp add: parser_eval)

lemma parse_signal_250_example:
  "parse_nmcli_line_robust ''X:WPA2:250:2437:AA:BB:CC:DD:EE:FF:6'' =
    Inr (Some \<lparr>f_ssid = ''X'', f_security = ''WPA2'', f_signal = 250, f_frequency = 2437,
               f_bssid = Some ''AA:BB:CC:DD:EE:FF'', f_channel = Some 6\<rparr>)"
  by (simp add: parser_eval)

lemma parse_overflow_example:
  "parse_nmcli_line_robust ''X:WPA2:75:1.0e999:AA:BB:CC:DD:EE:FF:6'' = Inl OverflowError"
  by (simp add: parse_nmcli_line_robust_def string_eval py_int_def split_sign_def num_space_def
      dec_val_def digit_val_def int_max_str_digits_def bssid_eval freq_1e999)


lemma parse_superscript_signal_example:
  "py_isdigit [CHR 0xB2]
   \<and> parse_nmcli_line_robust (''X:WPA2:'' @ [CHR 0xB2] @ '':2437:AA:BB:CC:DD:EE:FF:6'') = Inr None"
  by (simp add: parser_eval)

lemma parse_frequency_examples:
  "parse_frequency ''2437 MHz'' = Inr 2437"
  "parse_frequency ''2.437 GHz'' = Inr 2437"
  "parse_frequency ''5.18'' = Inr 5180"
  "parse_frequency ''abc'' = Inr 0"
  by code_simp+

lemma scan_line_SomeD:
  assumes "scan_line rssi_data now line = Inr (Some n)"
  shows "\<exists>d. parse_nmcli_line_robust line = Inr (Some d) \<and> f_ssid d \<noteq> []
      \<and> ssid n = f_ssid d \<and> security n = f_security d \<and> signal n = f_signal d
      \<and> frequency n = f_frequency d \<and> channel n = f_channel d \<and> bssid n = f_bssid d
      \<and> net_rssi n = rssi_data (f_ssid d) \<and> timestamp n = Some now"
  using assms
  by (auto simp: scan_line_def and_then_def post_init_def Let_def
           split: sum.splits option.splits if_splits)

subsection \<open>The scan-line parser\<close>

lemma scan_line_example:
  "scan_line rssi_data now ''MyNet:WPA2:75:2437:AA:BB:CC:DD:EE:FF:6'' =
    Inr (Some \<lparr>ssid = ''MyNet'', security = ''WPA2'', signal = 75, frequency = 2437,
               band = ''2.4GHz'', channel = Some 6, bssid = Some ''AA:BB:CC:DD:EE:FF'',
               net_rssi = rssi_data ''MyNet'', timestamp = Some now\<rparr>)"
  by (simp add: scan_line_def parse_example and_then_def post_init_def)

lemma scan_line_no_record:
  "parse_nmcli_line_robust line = Inr None \<Longrightarrow> scan_line rssi_data now line = Inr None"
  by (simp add: scan_line_def and_then_def)



lemma scan_line_empty_ssid:
  assumes e: "py_strip (py_split (CHR '':'') line ! 0) = []"
    and d: "parse_nmcli_line_robust line = Inr (Some d)"
  shows "f_ssid d = []" and "scan_line rssi_data now line = Inr None"
proof -
  show "f_ssid d = []" using parse_SomeD [OF d] e by simp
  then show "scan_line rssi_data now line = Inr None"
    using d by (simp add: scan_line_def and_then_def)
qed




lemma scan_line_overflow:
  "scan_line rssi_data now ''X:WPA2:75:1.0e999:AA:BB:CC:DD:EE:FF:6'' = Inl OverflowError"
  by (simp add: scan_line_def parse_overflow_example and_then_def)

lemma parse_overflow_in_ssid:
  "parse_nmcli_line_robust
     (''x'' @ [CHR 0x5C] @ '':y'' @ [CHR 0x5C] @ '':z'' @ [CHR 0x5C] @ '':1.0e999:WPA2:75:2437 MHz:AA''
      @ [CHR 0x5C] @ '':BB'' @ [CHR 0x5C] @ '':CC'' @ [CHR 0x5C] @ '':DD'' @ [CHR 0x5C] @ '':EE''
      @ [CHR 0x5C] @ '':FF:6'') = Inl OverflowError"
  by (simp add: parse_nmcli_line_robust_def string_eval py_int_def split_sign_def num_space_def
      dec_val_def digit_val_def int_max_str_digits_def bssid_eval freq_1e999)

lemma scan_networks_overflow:
  "scan_networks rssi_data clock
     (''MyNet:WPA2:75:2437:AA:BB:CC:DD:EE:FF:6'' @ [CHR 0x0A]
      @ ''X:WPA2:75:1.0e999:AA:BB:CC:DD:EE:FF:6'' @ [CHR 0x0A]
      @ ''MyNet:WPA2:75:2437:AA:BB:CC:DD:EE:FF:6'' @ [CHR 0x0A])
     discovered = Inl OverflowError"
  by (simp add: scan_networks_def py_strip_def py_isspace_def scan_line_example
      scan_line_overflow and_then_def)

text \<open>
  C6. The claim that no exception leaves the per-line parse fails on the code: the
  frequency field \<open>1.0e999\<close> contains a point, \<open>float\<close> gives infinity,
  \<open>int\<close> of it raises OverflowError, and neither handler (ValueError in
  \<open>_parse_frequency\<close>, ValueError and IndexError in \<open>_parse_nmcli_line_robust\<close>)
  catches it. It leaves the parser and ends the loop of \<open>scan_networks\<close>: the lines
  after it are not processed. The field need not come from the tool's frequency
  column: the colons of an SSID are escaped with a backslash but still split, so the
  network name \<open>x:y:z:1.0e999\<close> puts \<open>1.0e999\<close> in the fourth field.
\<close>

theorem parse_overflow_escapes:
  "parse_nmcli_line_robust ''X:WPA2:75:1.0e999:AA:BB:CC:DD:EE:FF:6'' = Inl OverflowError
   \<and> parse_nmcli_line_robust
     (''x'' @ [CHR 0x5C] @ '':y'' @ [CHR 0x5C] @ '':z'' @ [CHR 0x5C] @ '':1.0e999:WPA2:75:2437 MHz:AA''
      @ [CHR 0x5C] @ '':BB'' @ [CHR 0x5C] @ '':CC'' @ [CHR 0x5C] @ '':DD'' @ [CHR 0x5C] @ '':EE''
      @ [CHR 0x5C] @ '':FF:6'') = Inl OverflowError
   \<and> scan_lines rssi_data clock
        [''MyNet:WPA2:75:2437:AA:BB:CC:DD:EE:FF:6'',
         ''X:WPA2:75:1.0e999:AA:BB:CC:DD:EE:FF:6'',
         ''MyNet:WPA2:75:2437:AA:BB:CC:DD:EE:FF:6''] [] = Inl OverflowError
   \<and> scan_networks rssi_data clock
     (''MyNet:WPA2:75:2437:AA:BB:CC:DD:EE:FF:6'' @ [CHR 0x0A]
      @ ''X:WPA2:75:1.0e999:AA:BB:CC:DD:EE:FF:6'' @ [CHR 0x0A]
      @ ''MyNet:WPA2:75:2437:AA:BB:CC:DD:EE:FF:6'' @ [CHR 0x0A])
     discovered = Inl OverflowError"
proof -
  have "scan_lines rssi_data clock
        [''MyNet:WPA2:75:2437:AA:BB:CC:DD:EE:FF:6'',
         ''X:WPA2:75:1.0e999:AA:BB:CC:DD:EE:FF:6'',
         ''MyNet:WPA2:75:2437:AA:BB:CC:DD:EE:FF:6''] [] = Inl OverflowError"
    by (simp add: scan_line_example scan_line_overflow and_then_def)
  then show ?thesis
    using parse_overflow_example parse_overflow_in_ssid scan_networks_overflow by blast
qed

text \<open>
  C9, as stated, fails: the pattern accepts a hyphen as well as a colon between
  octets, so a line of 8 fields whose fifth field is \<open>AA-BB-CC\<close> records the BSSID
  \<open>AA-BB-CC:DD:EE:FF\<close>, which is not colon-separated.
\<close>

theorem bssid_hyphen_counterexample:
  "scan_line Map.empty ''t'' ''X:WPA2:75:2437:AA-BB-CC:DD:EE:FF'' =
     Inr (Some \<lparr>ssid = ''X'', security = ''WPA2'', signal = 75, frequency = 2437,
                band = ''2.4GHz'', channel = Some 6, bssid = Some ''AA-BB-CC:DD:EE:FF'',
                net_rssi = None, timestamp = Some ''t''\<rparr>)
   \<and> \<not> canonical_mac ''AA-BB-CC:DD:EE:FF''"
  by (simp add: scan_line_def parse_hyphen_example and_then_def post_init_def
      canonical_mac_def five_shapes is_upper_hex_def)

text \<open>
  C9, amended. The recorded BSSID is absent, or it is six groups of two upper-case
  hexadecimal digits, each separator a colon or a hyphen; when the line has at least
  10 fields every separator is a colon. A candidate that does not match the pattern,
  a lone octet such as \<open>AA\<close> for one, is recorded as absent.
\<close>

theorem recorded_bssid_shape:
  "(parse_nmcli_line_robust line = Inr (Some d) \<longrightarrow>
      f_bssid d = None
      \<or> (\<exists>b. f_bssid d = Some b \<and> separated_mac b
            \<and> (10 \<le> length (py_split (CHR '':'') line) \<longrightarrow> canonical_mac b)))
   \<and> (scan_line rssi_data now line = Inr (Some n) \<longrightarrow>
      bssid n = None
      \<or> (\<exists>b. bssid n = Some b \<and> separated_mac b
            \<and> (10 \<le> length (py_split (CHR '':'') line) \<longrightarrow> canonical_mac b)))
   \<and> (\<not> octet_groups 5 (py_strip (py_replace [CHR 0x5C] [] raw)) \<longrightarrow> validate_bssid raw = None)
   \<and> validate_bssid ''AA'' = None"
proof -
  have p: "f_bssid d = None
      \<or> (\<exists>b. f_bssid d = Some b \<and> separated_mac b
            \<and> (10 \<le> length (py_split (CHR '':'') line) \<longrightarrow> canonical_mac b))"
    if d: "parse_nmcli_line_robust line = Inr (Some d)" for d
  proof (cases "f_bssid d")
    case None
    then show ?thesis by simp
  next
    case (Some b)
    let ?raw = "py_join '':'' (take 6 (drop 4 (py_split (CHR '':'') line)))"
    have v: "validate_bssid ?raw = Some b"
      using parse_SomeD [OF d] Some by simp
    have 1: "separated_mac b" using v by (rule validate_bssid_separated)
    have 2: "canonical_mac b" if "10 \<le> length (py_split (CHR '':'') line)"
      using v bssid_raw_colons [OF that] by (rule validate_bssid_canonical)
    show ?thesis using Some 1 2 by simp
  qed
  have s: "bssid n = None
      \<or> (\<exists>b. bssid n = Some b \<and> separated_mac b
            \<and> (10 \<le> length (py_split (CHR '':'') line) \<longrightarrow> canonical_mac b))"
    if "scan_line rssi_data now line = Inr (Some n)"
  proof -
    from that obtain d where "parse_nmcli_line_robust line = Inr (Some d)" "bssid n = f_bssid d"
      using scan_line_SomeD by blast
    then show ?thesis using p [of d] by simp
  qed
  have r: "\<not> octet_groups 5 (py_strip (py_replace [CHR 0x5C] [] raw)) \<longrightarrow> validate_bssid raw = None"
    using validate_bssid_Some [of raw] by (cases "validate_bssid raw") auto
  have l: "validate_bssid ''AA'' = None"
    by (simp add: bssid_eval string_eval)
  show ?thesis using p s r l by blast
qed

theorem recorded_bssid_shape_witness:
  "parse_nmcli_line_robust ''MyNet:WPA2:75:2437:AA:BB:CC:DD:EE:FF:6'' =
     Inr (Some \<lparr>f_ssid = ''MyNet'', f_security = ''WPA2'', f_signal = 75, f_frequency = 2437,
                f_bssid = Some ''AA:BB:CC:DD:EE:FF'', f_channel = Some 6\<rparr>)
   \<and> 10 \<le> length (py_split (CHR '':'') ''MyNet:WPA2:75:2437:AA:BB:CC:DD:EE:FF:6'')
   \<and> separated_mac ''AA:BB:CC:DD:EE:FF'' \<and> canonical_mac ''AA:BB:CC:DD:EE:FF''"
  using recorded_bssid_shape [of "''MyNet:WPA2:75:2437:AA:BB:CC:DD:EE:FF:6''"
      "\<lparr>f_ssid = ''MyNet'', f_security = ''WPA2'', f_signal = 75, f_frequency = 2437,
        f_bssid = Some ''AA:BB:CC:DD:EE:FF'', f_channel = Some 6\<rparr>"]
    parse_example
  by simp

text \<open>
  C10, as stated, fails: the signal field is converted, never clamped, so the field
  \<open>250\<close> gives signal 250.
\<close>

theorem signal_above_100_counterexample:
  "scan_line Map.empty ''t'' ''X:WPA2:250:2437:AA:BB:CC:DD:EE:FF:6'' =
     Inr (Some \<lparr>ssid = ''X'', security = ''WPA2'', signal = 250, frequency = 2437,
                band = ''2.4GHz'', channel = Some 6, bssid = Some ''AA:BB:CC:DD:EE:FF'',
                net_rssi = None, timestamp = Some ''t''\<rparr>)
   \<and> \<not> (0 \<le> (250::int) \<and> (250::int) \<le> 100)"
  by (simp add: scan_line_def parse_signal_250_example and_then_def post_init_def)

text \<open>
  C10, amended. The signal of every record is a non-negative integer: the decimal
  value of the trimmed third field when \<open>str.isdigit\<close> holds of it, and 0 otherwise.
\<close>

theorem signal_nonnegative:
  "(parse_nmcli_line_robust line = Inr (Some d) \<longrightarrow>
      0 \<le> f_signal d
      \<and> f_signal d = (if py_isdigit (py_strip (py_split (CHR '':'') line ! 2))
                      then dec_val (py_strip (py_split (CHR '':'') line ! 2)) else 0))
   \<and> (scan_line rssi_data now line = Inr (Some n) \<longrightarrow>
      0 \<le> signal n
      \<and> signal n = (if py_isdigit (py_strip (py_split (CHR '':'') line ! 2))
                    then dec_val (py_strip (py_split (CHR '':'') line ! 2)) else 0))"
proof -
  let ?f = "py_strip (py_split (CHR '':'') line ! 2)"
  have p: "0 \<le> f_signal d \<and> f_signal d = (if py_isdigit ?f then dec_val ?f else 0)"
    if d: "parse_nmcli_line_robust line = Inr (Some d)" for d
  proof (cases "py_isdigit ?f")
    case True
    then have "py_int ?f = Inr (f_signal d)" using parse_SomeD [OF d] by simp
    then show ?thesis using py_int_isdigit [OF True] True by simp
  next
    case False
    then have "f_signal d = 0" using parse_SomeD [OF d] by simp
    then show ?thesis using False by simp
  qed
  have s: "0 \<le> signal n \<and> signal n = (if py_isdigit ?f then dec_val ?f else 0)"
    if "scan_line rssi_data now line = Inr (Some n)"
  proof -
    from that obtain d where "parse_nmcli_line_robust line = Inr (Some d)" "signal n = f_signal d"
      using scan_line_SomeD by blast
    then show ?thesis using p [of d] by simp
  qed
  show ?thesis using p s by blast
qed

theorem signal_nonnegative_witness:
  "parse_nmcli_line_robust ''X:WPA2:250:2437:AA:BB:CC:DD:EE:FF:6'' =
     Inr (Some \<lparr>f_ssid = ''X'', f_security = ''WPA2'', f_signal = 250, f_frequency = 2437,
                f_bssid = Some ''AA:BB:CC:DD:EE:FF'', f_channel = Some 6\<rparr>)
   \<and> py_isdigit (py_strip (py_split (CHR '':'') ''X:WPA2:250:2437:AA:BB:CC:DD:EE:FF:6'' ! 2))
   \<and> dec_val (py_strip (py_split (CHR '':'') ''X:WPA2:250:2437:AA:BB:CC:DD:EE:FF:6'' ! 2)) = 250"
  using signal_nonnegative [of "''X:WPA2:250:2437:AA:BB:CC:DD:EE:FF:6''"
      "\<lparr>f_ssid = ''X'', f_security = ''WPA2'', f_signal = 250, f_frequency = 2437,
        f_bssid = Some ''AA:BB:CC:DD:EE:FF'', f_channel = Some 6\<rparr>"]
    parse_signal_250_example
  by (simp add: string_eval)

subsection \<open>Which exceptions leave the parser\<close>

text \<open>
  ValueError and IndexError are handled; of the exceptions that the conversions of
  \<open>_parse_nmcli_line_robust\<close> raise, OverflowError is the only one that leaves it
  (the message that the handler prints is output, which is not part of this
  development). So a line whose first field is empty after trimming gives no record
  or raises OverflowError.
\<close>

lemma py_int_err: "py_int s = Inl e \<Longrightarrow> e = ValueError"
  by (auto simp: py_int_def Let_def split: prod.splits if_splits)

lemma parse_exponent_err: "parse_exponent r = Inl e \<Longrightarrow> e = ValueError"
  by (auto simp: parse_exponent_def Let_def split: list.splits prod.splits if_splits)

lemma parse_decimal_err: "parse_decimal neg t = Inl e \<Longrightarrow> e = ValueError"
  by (auto simp: parse_decimal_def Let_def and_then_def dest: parse_exponent_err
           split: if_splits sum.splits)

lemma py_float_err: "py_float s = Inl e \<Longrightarrow> e = ValueError"
  by (auto simp: py_float_def Let_def dest: parse_decimal_err split: prod.splits if_splits)

lemma py_int_of_float_err: "py_int_of_float x = Inl e \<Longrightarrow> e = ValueError \<or> e = OverflowError"
  by (auto simp: py_int_of_float_def split: pyfloat.splits)

lemma parse_frequency_err: "parse_frequency s = Inl e \<Longrightarrow> e = OverflowError"
  by (auto simp: parse_frequency_def Let_def and_then_def
           dest: py_int_err py_float_err py_int_of_float_err
           split: if_splits sum.splits pyerr.splits)

lemma parse_channel_err: "parse_channel c f = Inl e \<Longrightarrow> e = ValueError"
  by (auto simp: parse_channel_def and_then_def dest: py_int_err split: if_splits sum.splits)

lemma parse_only_overflow_escapes:
  "parse_nmcli_line_robust line = Inl e \<Longrightarrow> e = OverflowError"
  by (auto simp: parse_nmcli_line_robust_def Let_def and_then_def list_at_def
           dest: py_int_err parse_frequency_err parse_channel_err
           split: if_splits sum.splits pyerr.splits)

lemma scan_line_empty_ssid_cases:
  assumes e: "py_strip (py_split (CHR '':'') line ! 0) = []"
  shows "scan_line rssi_data now line = Inr None
    \<or> scan_line rssi_data now line = Inl OverflowError"
proof (cases "parse_nmcli_line_robust line")
  case (Inl err)
  then have "err = OverflowError" by (rule parse_only_overflow_escapes)
  then show ?thesis using Inl by (simp add: scan_line_def and_then_def)
next
  case (Inr r)
  show ?thesis
  proof (cases r)
    case None
    then show ?thesis using Inr by (simp add: scan_line_no_record)
  next
    case (Some d)
    then show ?thesis using scan_line_empty_ssid(2) [OF e] Inr by simp
  qed
qed

end
